theory Spec2Isabelle
  imports Complex_Main "HOL-Library.AList" "HOL-Library.Sublist"
begin

section \<open>The analyzer of cfganalyze (analyzer.go)\<close>

text \<open>
  The package compares a working configuration file with a master file. This theory
  embeds \<^verbatim>\<open>analyzer.go\<close>: the loader (\<^verbatim>\<open>connect\<close>, \<^verbatim>\<open>read\<close>,
  \<^verbatim>\<open>newAnalyzer\<close>) and the four public operations. Everything the Go code does
  to the outside (opening an ssh session, reading a file, copying a remote file,
  printing) is recorded, in order, in a list of events that each function returns next
  to its result.
\<close>

subsection \<open>Data\<close>

type_synonym bytes = string

text \<open>A Go \<^verbatim>\<open>error\<close> value is represented by its message; \<open>None\<close> is \<^verbatim>\<open>nil\<close>.\<close>

type_synonym error = string

text \<open>
  \<^verbatim>\<open>Config\<close> is declared outside \<^verbatim>\<open>analyzer.go\<close>; these are the three fields
  the file reads.
\<close>

record Config =
  HostAlias :: string
  WorkingPath :: string
  MasterPath :: string

text \<open>
  Modelled from the spec: the type \<^verbatim>\<open>bash\<close> and its constructor \<^verbatim>\<open>newBash\<close> are
  not among the sources. The spec's remote transport is a session handle for a host
  identifier, so the handle is the host alias it was made for, and the constructor
  always yields one (a non-nil pointer).
\<close>

datatype bash = Bash string

definition newBash :: "string \<Rightarrow> bash" where
  "newBash hostAlias = Bash hostAlias"

text \<open>
  The struct \<^verbatim>\<open>analyzer\<close>. A nil slice and an empty slice are both \<open>[]\<close>; the nil
  pointer of field \<^verbatim>\<open>bash\<close> is \<open>None\<close>.
\<close>

record analyzer =
  working :: bytes
  master :: bytes
  bash :: "bash option"
  missing :: "string list"
  different :: "string list"

definition analyzer_zero :: analyzer where
  "analyzer_zero = \<lparr>working = [], master = [], bash = None, missing = [], different = []\<rparr>"

text \<open>
  The outside world, as the three calls of \<^verbatim>\<open>analyzer.go\<close> see it:
  \<^verbatim>\<open>ioutil.ReadFile\<close> returns the data read and an error, \<^verbatim>\<open>(*bash).ssh\<close> returns
  an error, \<^verbatim>\<open>(*bash).scp\<close> returns the data and an error.
\<close>

record world =
  ioutil_ReadFile :: "string \<Rightarrow> bytes \<times> error option"
  bash_ssh :: "bash \<Rightarrow> error option"
  bash_scp :: "bash \<Rightarrow> string \<Rightarrow> bytes \<times> error option"

datatype event =
  EvSsh bash
  | EvReadFile string
  | EvScp bash string
  | EvPrintf string

subsection \<open>Formatting\<close>

text \<open>\<^verbatim>\<open>fmt.Errorf("could not connect to host %s. %s", hostAlias, err)\<close>\<close>

definition Errorf_connect :: "string \<Rightarrow> error \<Rightarrow> error" where
  "Errorf_connect hostAlias err = ''could not connect to host '' @ hostAlias @ ''. '' @ err"

text \<open>\<^verbatim>\<open>fmt.Errorf("could not open %s. %s", path, err)\<close>\<close>

definition Errorf_open :: "string \<Rightarrow> error \<Rightarrow> error" where
  "Errorf_open path err = ''could not open '' @ path @ ''. '' @ err"

text \<open>The verb \<^verbatim>\<open>%+v\<close> on a \<^verbatim>\<open>[]string\<close>: the elements between brackets, separated by spaces.\<close>

fun join_space :: "string list \<Rightarrow> string" where
  "join_space [] = []"
| "join_space [x] = x"
| "join_space (x # y # ys) = x @ '' '' @ join_space (y # ys)"

definition fmt_strings :: "string list \<Rightarrow> string" where
  "fmt_strings xs = ''['' @ join_space xs @ '']''"

text \<open>\<^verbatim>\<open>"(!) found missing keys in %s: %+v\n"\<close>\<close>

definition msg_missing :: "string \<Rightarrow> string list \<Rightarrow> string" where
  "msg_missing workingPath ks =
     ''(!) found missing keys in '' @ workingPath @ '': '' @ fmt_strings ks @ [CHR 0x0A]"

text \<open>\<^verbatim>\<open>"(!) %s and %s are different. Ignore if this is intentional\n"\<close>\<close>

definition msg_different :: "string \<Rightarrow> string \<Rightarrow> string" where
  "msg_different workingPath masterPath =
     ''(!) '' @ workingPath @ '' and '' @ masterPath
       @ '' are different. Ignore if this is intentional'' @ [CHR 0x0A]"

text \<open>\<^verbatim>\<open>"%+v\n"\<close>\<close>

definition msg_keys :: "string list \<Rightarrow> string" where
  "msg_keys ks = fmt_strings ks @ [CHR 0x0A]"

subsection \<open>The loader\<close>

text \<open>
  \<^verbatim>\<open>connect\<close> stores a new session handle in the analyzer and calls \<^verbatim>\<open>ssh\<close>. When
  \<^verbatim>\<open>ssh\<close> fails, the error that \<^verbatim>\<open>fmt.Errorf\<close> builds is not returned: the
  statement stands alone, and the function ends with \<^verbatim>\<open>return nil\<close> on every path.
\<close>

definition connect :: "world \<Rightarrow> analyzer \<Rightarrow> string \<Rightarrow> (error option \<times> analyzer) \<times> event list" where
  "connect w a hostAlias =
     (let b = newBash hostAlias;
          a1 = a\<lparr>bash := Some b\<rparr>;
          discarded = (case bash_ssh w b of
                         Some err \<Rightarrow> Some (Errorf_connect hostAlias err)
                       | None \<Rightarrow> None)
      in ((None, a1), [EvSsh b]))"

text \<open>
  \<^verbatim>\<open>read\<close> assigns \<^verbatim>\<open>a.working\<close> and \<^verbatim>\<open>a.master\<close> from whatever the call
  returned, before it looks at the error.
\<close>

definition read :: "world \<Rightarrow> analyzer \<Rightarrow> string \<Rightarrow> string \<Rightarrow> (error option \<times> analyzer) \<times> event list" where
  "read w a workingPath masterPath =
     (let (wdata, werr) = ioutil_ReadFile w workingPath;
          a1 = a\<lparr>working := wdata\<rparr>
      in case werr of
           Some err \<Rightarrow> ((Some (Errorf_open workingPath err), a1), [EvReadFile workingPath])
         | None \<Rightarrow>
            (case bash a1 of
               Some b \<Rightarrow>
                 (let (mdata, merr) = bash_scp w b masterPath;
                      a2 = a1\<lparr>master := mdata\<rparr>
                  in case merr of
                       Some err \<Rightarrow> ((Some (Errorf_open masterPath err), a2),
                                    [EvReadFile workingPath, EvScp b masterPath])
                     | None \<Rightarrow> ((None, a2), [EvReadFile workingPath, EvScp b masterPath]))
             | None \<Rightarrow>
                 (let (mdata, merr) = ioutil_ReadFile w masterPath;
                      a2 = a1\<lparr>master := mdata\<rparr>
                  in case merr of
                       Some err \<Rightarrow> ((Some (Errorf_open masterPath err), a2),
                                    [EvReadFile workingPath, EvReadFile masterPath])
                     | None \<Rightarrow> ((None, a2), [EvReadFile workingPath, EvReadFile masterPath]))))"

text \<open>
  \<^verbatim>\<open>newAnalyzer\<close> returns \<^verbatim>\<open>(nil, err)\<close> or \<^verbatim>\<open>(&a, nil)\<close>: \<open>Inl err\<close> or
  \<open>Inr a\<close>.
\<close>

definition newAnalyzer :: "world \<Rightarrow> Config \<Rightarrow> (error + analyzer) \<times> event list" where
  "newAnalyzer w c =
     (let a = analyzer_zero;
          ((cerr, a1), t1) =
             (if length (HostAlias c) > 0 then connect w a (HostAlias c)
              else ((None, a), []))
      in case cerr of
           Some err \<Rightarrow> (Inl err, t1)
         | None \<Rightarrow>
            (case read w a1 (WorkingPath c) (MasterPath c) of
               ((Some err, a2), t2) \<Rightarrow> (Inl err, t1 @ t2)
             | ((None, a2), t2) \<Rightarrow> (Inr a2, t1 @ t2)))"

subsection \<open>The public operations\<close>

text \<open>
  Modelled from the spec: \<^verbatim>\<open>newJsonAnalyzer\<close> and \<^verbatim>\<open>newEnvAnalyzer\<close> are not among
  the sources. The spec has the analyzer engine constructed by the source loader (and
  the remote transport when a host is given), and its result carries the fields of
  \<^verbatim>\<open>analyzer\<close> that the callers read, so each constructor is \<^verbatim>\<open>newAnalyzer\<close> with
  its result wrapped.
\<close>

definition newJsonAnalyzer :: "world \<Rightarrow> Config \<Rightarrow> (error + analyzer) \<times> event list" where
  "newJsonAnalyzer w c = newAnalyzer w c"

definition newEnvAnalyzer :: "world \<Rightarrow> Config \<Rightarrow> (error + analyzer) \<times> event list" where
  "newEnvAnalyzer w c = newAnalyzer w c"

text \<open>
  The methods \<^verbatim>\<open>scan\<close> and \<^verbatim>\<open>equality\<close> of the two analyzers are not among the
  sources either. The operations below take them as parameters: \<open>scan\<close> updates the
  analyzer (its fields \<^verbatim>\<open>missing\<close> and \<^verbatim>\<open>different\<close>), \<open>equality\<close> returns a
  boolean and an error; both work on the buffers the loader has filled and are taken to
  read no file and print nothing. What is proved of the operations holds for every such
  method.
\<close>

definition ScanJson ::
  "(analyzer \<Rightarrow> analyzer) \<Rightarrow> world \<Rightarrow> Config \<Rightarrow> (string list \<times> error option) \<times> event list" where
  "ScanJson scan w c =
     (case newJsonAnalyzer w c of
        (Inl err, t) \<Rightarrow> (([], Some err), t)
      | (Inr a, t) \<Rightarrow> (let a1 = scan a in ((missing a1, None), t)))"

definition PrintJson ::
  "(analyzer \<Rightarrow> analyzer) \<Rightarrow> (analyzer \<Rightarrow> bool \<times> error option) \<Rightarrow> world \<Rightarrow> Config
     \<Rightarrow> error option \<times> event list" where
  "PrintJson scan equality w c =
     (case newJsonAnalyzer w c of
        (Inl err, t) \<Rightarrow> (Some err, t)
      | (Inr a, t) \<Rightarrow>
         (let a1 = scan a in
          if length (missing a1) > 0
          then (None, t @ [EvPrintf (msg_missing (WorkingPath c) (missing a1))])
          else (case equality a1 of
                  (equal, Some err) \<Rightarrow> (Some err, t)
                | (equal, None) \<Rightarrow>
                    if \<not> equal
                    then (None, t @ [EvPrintf (msg_different (WorkingPath c) (MasterPath c))])
                    else (None, t))))"

definition ScanEnv ::
  "(analyzer \<Rightarrow> analyzer) \<Rightarrow> world \<Rightarrow> Config \<Rightarrow> (string list \<times> error option) \<times> event list" where
  "ScanEnv scan w c =
     (case newEnvAnalyzer w c of
        (Inl err, t) \<Rightarrow> (([], Some err), t)
      | (Inr a, t) \<Rightarrow> (let a1 = scan a in ((missing a1, None), t)))"

definition PrintEnv ::
  "(analyzer \<Rightarrow> analyzer) \<Rightarrow> world \<Rightarrow> Config \<Rightarrow> error option \<times> event list" where
  "PrintEnv scan w c =
     (case newEnvAnalyzer w c of
        (Inl err, t) \<Rightarrow> (Some err, t)
      | (Inr a, t) \<Rightarrow>
         (let a1 = scan a in
          if length (missing a1) > 0
          then (None, t @ [EvPrintf (msg_missing (WorkingPath c) (missing a1))])
          else if length (different a1) > 0
          then (None, t @ [EvPrintf (msg_different (WorkingPath c) (MasterPath c)),
                           EvPrintf (msg_keys (different a1))])
          else (None, t)))"

section \<open>The format-specific operations, from the specification\<close>

text \<open>
  Modelled from the spec: the env and JSON extractors and the scan, diff and equality
  algorithms, which live in files that are not among the sources. Everything in this
  section follows the specification's sections 3 and 4; white space, the splitting into
  lines and the text of a key path are written out where the specification only names
  them.
\<close>

subsection \<open>Env: parsing, scan and diff\<close>

text \<open>
  Modelled from the spec: the KeySet of the env format, "a mapping from string key to
  string value ... keys unique (last occurrence wins on duplicate)". It is kept as an
  association list in insertion order, looked up with \<open>map_of\<close>.
\<close>

type_synonym KeySet = "(string \<times> string) list"

definition is_space :: "char \<Rightarrow> bool" where
  "is_space c = (c \<in> set [CHR '' '', CHR 0x09, CHR 0x0A, CHR 0x0B, CHR 0x0C, CHR 0x0D])"

definition trim :: "string \<Rightarrow> string" where
  "trim s = rev (dropWhile is_space (rev (dropWhile is_space s)))"

text \<open>The lines of a byte stream: the pieces between line feeds.\<close>

fun split_lines :: "bytes \<Rightarrow> string list" where
  "split_lines [] = [[]]"
| "split_lines (c # cs) =
     (if c = CHR 0x0A then [] # split_lines cs
      else (case split_lines cs of l # ls \<Rightarrow> (c # l) # ls | [] \<Rightarrow> [[c]]))"

text \<open>
  Modelled from the spec: the lines that \<^verbatim>\<open>parseEnv\<close> skips, "lines without a
  \<^verbatim>\<open>=\<close> separator, blank lines, or comment lines (leading \<^verbatim>\<open>#\<close>)".
\<close>

definition skipped :: "string \<Rightarrow> bool" where
  "skipped l = (CHR ''='' \<notin> set l \<or> trim l = [] \<or> take 1 l = ''#'')"

text \<open>
  Modelled from the spec: "each valid line is split on the first \<^verbatim>\<open>=\<close> into key and
  value; leading/trailing whitespace is trimmed from both".
\<close>

definition line_key :: "string \<Rightarrow> string" where
  "line_key l = trim (takeWhile (\<lambda>c. c \<noteq> CHR ''='') l)"

definition line_value :: "string \<Rightarrow> string" where
  "line_value l = trim (drop 1 (dropWhile (\<lambda>c. c \<noteq> CHR ''='') l))"

fun parse_lines :: "string list \<Rightarrow> KeySet \<Rightarrow> KeySet" where
  "parse_lines [] ks = ks"
| "parse_lines (l # ls) ks =
     (if skipped l then parse_lines ls ks
      else parse_lines ls (AList.update (line_key l) (line_value l) ks))"

text \<open>
  Modelled from the spec: \<^verbatim>\<open>parseEnv(bytes) -> KeySet\<close>, the env extractor, which is
  not among the sources. It has no error result.
\<close>

definition parseEnv :: "bytes \<Rightarrow> KeySet" where
  "parseEnv bs = parse_lines (split_lines bs) []"

text \<open>
  Modelled from the spec: the env scan, "for every key in master's KeySet, if that key
  is absent from working's KeySet, append it to the missing list".
\<close>

definition env_scan :: "KeySet \<Rightarrow> KeySet \<Rightarrow> string list" where
  "env_scan wk ms = filter (\<lambda>k. map_of wk k = None) (map fst ms)"

text \<open>
  Modelled from the spec: the env diff, "for every key present in both KeySets, compare
  string values; if unequal, append the key to the differences list".
\<close>

definition env_diff :: "KeySet \<Rightarrow> KeySet \<Rightarrow> string list" where
  "env_diff wk ms =
     filter (\<lambda>k. case map_of wk k of
                   None \<Rightarrow> False
                 | Some v \<Rightarrow> (case map_of ms k of None \<Rightarrow> False | Some v' \<Rightarrow> v \<noteq> v'))
            (map fst ms)"

text \<open>
  An instance of the parameter \<open>scan\<close> of \<open>ScanEnv\<close> and \<open>PrintEnv\<close>, put together
  from the operations above: it parses both buffers and fills the two lists that
  \<^verbatim>\<open>PrintEnv\<close> reads. It serves to run the operations on concrete files.
\<close>

definition envAnalyzer_scan :: "analyzer \<Rightarrow> analyzer" where
  "envAnalyzer_scan a =
     a\<lparr>missing := env_scan (parseEnv (working a)) (parseEnv (master a)),
       different := env_diff (parseEnv (working a)) (parseEnv (master a))\<rparr>"

subsection \<open>JSON: key trees, scan and equality\<close>

text \<open>
  Modelled from the spec: the KeyTree, "each node is either a scalar
  (string/number/bool/null), an ordered sequence of nodes, or a mapping from string key
  to node". An object keeps its members in document order.
\<close>

datatype json =
  JNull
  | JBool bool
  | JNumber rat
  | JString string
  | JArray "json list"
  | JObject "(string \<times> json) list"

text \<open>
  Modelled from the spec: the key path, "the sequence of keys/indices needed to reach a
  node from the root", and what it means for a path to resolve in a tree.
\<close>

datatype segment = Key string | Index nat

type_synonym keypath = "segment list"

fun child :: "json \<Rightarrow> segment \<Rightarrow> json option" where
  "child (JObject kvs) (Key k) = map_of kvs k"
| "child (JArray xs) (Index i) = (if i < length xs then Some (xs ! i) else None)"
| "child _ _ = None"

fun resolve :: "json \<Rightarrow> keypath \<Rightarrow> json option" where
  "resolve t [] = Some t"
| "resolve t (s # p) = (case child t s of Some v \<Rightarrow> resolve v p | None \<Rightarrow> None)"

text \<open>
  Modelled from the spec: "a key path is missing if and only if it does not resolve to
  any node in the working structure". The topmost missing paths are the missing paths
  whose parent resolves.
\<close>

definition topmost_missing :: "json \<Rightarrow> keypath \<Rightarrow> bool" where
  "topmost_missing wk q = (q \<noteq> [] \<and> resolve wk q = None \<and> resolve wk (butlast q) \<noteq> None)"

text \<open>
  Modelled from the spec: the JSON scan of section 4.4. \<open>scan_node p wk ms\<close> walks the
  master node \<open>ms\<close> found at path \<open>p\<close>, next to the working node \<open>wk\<close> found at the
  same path. For every member of a mapping and every position of a sequence it looks
  the child up in the working node: an absent child is recorded with its full path and
  not entered, a present one is walked in turn. A scalar ends the walk.
\<close>

fun scan_node :: "keypath \<Rightarrow> json \<Rightarrow> json \<Rightarrow> keypath list"
  and scan_fields :: "keypath \<Rightarrow> json \<Rightarrow> (string \<times> json) list \<Rightarrow> keypath list"
  and scan_elems :: "keypath \<Rightarrow> json \<Rightarrow> nat \<Rightarrow> json list \<Rightarrow> keypath list" where
  "scan_node p wk (JObject kvs) = scan_fields p wk kvs"
| "scan_node p wk (JArray xs) = scan_elems p wk 0 xs"
| "scan_node p wk JNull = []"
| "scan_node p wk (JBool b) = []"
| "scan_node p wk (JNumber n) = []"
| "scan_node p wk (JString s) = []"
| "scan_fields p wk [] = []"
| "scan_fields p wk ((k, mv) # kvs) =
     (case child wk (Key k) of
        None \<Rightarrow> [p @ [Key k]]
      | Some wv \<Rightarrow> scan_node (p @ [Key k]) wv mv) @ scan_fields p wk kvs"
| "scan_elems p wk i [] = []"
| "scan_elems p wk i (mv # xs) =
     (case child wk (Index i) of
        None \<Rightarrow> [p @ [Index i]]
      | Some wv \<Rightarrow> scan_node (p @ [Index i]) wv mv) @ scan_elems p wk (Suc i) xs"

definition json_scan_paths :: "json \<Rightarrow> json \<Rightarrow> keypath list" where
  "json_scan_paths wk ms = scan_node [] wk ms"

text \<open>
  Modelled from the spec: the "dotted/indexed" text of a key path. The spec fixes the dot
  between keys (its scenario writes \<^verbatim>\<open>b.c\<close>); an index is written here in
  brackets after its parent, as in \<^verbatim>\<open>a[0].b\<close>.
\<close>

fun digits :: "nat \<Rightarrow> string" where
  "digits n =
     (if n < 10 then [char_of (48 + n)]
      else digits (n div 10) @ [char_of (48 + n mod 10)])"

declare digits.simps [simp del]

fun render_rest :: "keypath \<Rightarrow> string" where
  "render_rest [] = []"
| "render_rest (Key k # p) = ''.'' @ k @ render_rest p"
| "render_rest (Index i # p) = ''['' @ digits i @ '']'' @ render_rest p"

fun render :: "keypath \<Rightarrow> string" where
  "render [] = []"
| "render (Key k # p) = k @ render_rest p"
| "render (Index i # p) = ''['' @ digits i @ '']'' @ render_rest p"

text \<open>Modelled from the spec: \<^verbatim>\<open>scan(workingStructure, masterStructure)\<close> for JSON.\<close>

definition json_scan :: "json \<Rightarrow> json \<Rightarrow> string list" where
  "json_scan wk ms = map render (json_scan_paths wk ms)"

text \<open>
  Modelled from the spec: the JSON equality of section 4.5, "mappings equal iff same
  key set and every corresponding value equal (order-independent); sequences equal iff
  same length and every corresponding element equal by position; scalars equal iff same
  primitive kind and value".
\<close>

function (sequential) json_equal :: "json \<Rightarrow> json \<Rightarrow> bool" where
  "json_equal JNull JNull = True"
| "json_equal (JBool a) (JBool b) = (a = b)"
| "json_equal (JNumber a) (JNumber b) = (a = b)"
| "json_equal (JString a) (JString b) = (a = b)"
| "json_equal (JArray xs) (JArray ys) = (length xs = length ys \<and> list_all2 json_equal xs ys)"
| "json_equal (JObject xs) (JObject ys) =
     (set (map fst xs) = set (map fst ys) \<and>
      list_all (\<lambda>k. case map_of xs k of
                      None \<Rightarrow> False
                    | Some a \<Rightarrow> (case map_of ys k of None \<Rightarrow> False | Some b \<Rightarrow> json_equal a b))
               (map fst xs))"
| "json_equal _ _ = False"
  by pat_completeness auto
termination
  apply (relation "measure (\<lambda>(a, b). size a)")
    apply simp
  subgoal for xs ys x y by (induction xs) (auto simp: less_Suc_eq)
  subgoal for xs ys k a b by (induction xs) (auto split: if_splits)
  done

text \<open>
  Instances of the parameters \<open>scan\<close> and \<open>equality\<close> of \<open>ScanJson\<close> and
  \<open>PrintJson\<close>, put together from the operations above. The JSON decoder is a
  parameter \<open>decode\<close>; a buffer it rejects leaves the analyzer as it is and makes the
  equality return an error. They serve to run the operations on concrete files.
\<close>

definition jsonAnalyzer_scan :: "(bytes \<Rightarrow> json option) \<Rightarrow> analyzer \<Rightarrow> analyzer" where
  "jsonAnalyzer_scan decode a =
     (case decode (working a) of
        None \<Rightarrow> a
      | Some wt \<Rightarrow>
          (case decode (master a) of
             None \<Rightarrow> a
           | Some mt \<Rightarrow> a\<lparr>missing := json_scan wt mt\<rparr>))"

definition jsonAnalyzer_equality :: "(bytes \<Rightarrow> json option) \<Rightarrow> analyzer \<Rightarrow> bool \<times> error option" where
  "jsonAnalyzer_equality decode a =
     (case decode (working a) of
        None \<Rightarrow> (False, Some ''invalid character'')
      | Some wt \<Rightarrow>
          (case decode (master a) of
             None \<Rightarrow> (False, Some ''invalid character'')
           | Some mt \<Rightarrow> (json_equal wt mt, None)))"

section \<open>Concrete files and hosts\<close>

text \<open>
  A small world to run the operations in: three local env files, three local JSON
  files, one reachable host \<^verbatim>\<open>prod\<close> that serves one remote file, and nothing
  else.
\<close>

definition json_a1 :: bytes where
  \<open>json_a1 = ''{"a":1}''\<close>

definition json_a2 :: bytes where
  \<open>json_a2 = ''{"a":2}''\<close>

definition json_ab :: bytes where
  \<open>json_ab = ''{"a":1,"b":{"c":2}}''\<close>

definition tree_a1 :: json where
  "tree_a1 = JObject [(''a'', JNumber 1)]"

definition tree_a2 :: json where
  "tree_a2 = JObject [(''a'', JNumber 2)]"

definition tree_ab :: json where
  "tree_ab = JObject [(''a'', JNumber 1), (''b'', JObject [(''c'', JNumber 2)])]"

text \<open>The decoder on the three documents; every other buffer is rejected.\<close>

definition decode_ex :: "bytes \<Rightarrow> json option" where
  "decode_ex bs =
     (if bs = json_a1 then Some tree_a1
      else if bs = json_a2 then Some tree_a2
      else if bs = json_ab then Some tree_ab
      else None)"

definition local_files :: "string \<Rightarrow> bytes \<times> error option" where
  "local_files p =
     (if p = ''work.env'' then (''FOO=1'', None)
      else if p = ''master.env'' then (''FOO=1'' @ [CHR 0x0A] @ ''BAR=2'', None)
      else if p = ''other.env'' then (''FOO=1'' @ [CHR 0x0A] @ ''BAR=3'', None)
      else if p = ''a1.json'' then (json_a1, None)
      else if p = ''a2.json'' then (json_a2, None)
      else if p = ''ab.json'' then (json_ab, None)
      else ([], Some (''open '' @ p @ '': no such file or directory'')))"

definition world_ex :: world where
  "world_ex =
     \<lparr>ioutil_ReadFile = local_files,
      bash_ssh = (\<lambda>b. if b = Bash ''prod'' then None else Some ''exit status 255''),
      bash_scp = (\<lambda>b p. if b = Bash ''prod'' \<and> p = ''/srv/app.env''
                          then (''FOO=1'' @ [CHR 0x0A] @ ''BAR=2'', None)
                          else ([], Some ''exit status 1''))\<rparr>"

definition cfg_local :: Config where
  "cfg_local = \<lparr>HostAlias = [], WorkingPath = ''work.env'', MasterPath = ''master.env''\<rparr>"

definition cfg_other :: Config where
  "cfg_other = \<lparr>HostAlias = [], WorkingPath = ''other.env'', MasterPath = ''master.env''\<rparr>"

definition cfg_remote :: Config where
  "cfg_remote = \<lparr>HostAlias = ''prod'', WorkingPath = ''work.env'', MasterPath = ''/srv/app.env''\<rparr>"

definition cfg_unreachable :: Config where
  "cfg_unreachable =
     \<lparr>HostAlias = ''down'', WorkingPath = ''work.env'', MasterPath = ''/srv/app.env''\<rparr>"

definition cfg_nowork :: Config where
  "cfg_nowork =
     \<lparr>HostAlias = ''prod'', WorkingPath = ''gone.env'', MasterPath = ''/srv/app.env''\<rparr>"

definition cfg_nowork_local :: Config where
  "cfg_nowork_local = \<lparr>HostAlias = [], WorkingPath = ''gone.env'', MasterPath = ''master.env''\<rparr>"

definition cfg_nomaster :: Config where
  "cfg_nomaster = \<lparr>HostAlias = [], WorkingPath = ''work.env'', MasterPath = ''gone.env''\<rparr>"

definition cfg_json_missing :: Config where
  "cfg_json_missing = \<lparr>HostAlias = [], WorkingPath = ''a1.json'', MasterPath = ''ab.json''\<rparr>"

definition cfg_json_differ :: Config where
  "cfg_json_differ = \<lparr>HostAlias = [], WorkingPath = ''a2.json'', MasterPath = ''a1.json''\<rparr>"

section \<open>Properties of the loader\<close>

lemmas ex_defs = world_ex_def local_files_def cfg_local_def cfg_other_def cfg_remote_def
  cfg_unreachable_def cfg_nowork_def cfg_nowork_local_def cfg_nomaster_def
  cfg_json_missing_def cfg_json_differ_def Errorf_open_def

text \<open>\<^verbatim>\<open>connect\<close> returns nil whatever \<^verbatim>\<open>ssh\<close> returned.\<close>

lemma connect_nil:
  "connect w a h = ((None, a\<lparr>bash := Some (Bash h)\<rparr>), [EvSsh (Bash h)])"
  by (simp add: connect_def newBash_def Let_def)

text \<open>The whole behaviour of \<^verbatim>\<open>newAnalyzer\<close> with a host alias, and without one.\<close>

lemma newAnalyzer_remote:
  "HostAlias c \<noteq> [] \<Longrightarrow>
   newAnalyzer w c =
     (case ioutil_ReadFile w (WorkingPath c) of
        (wd, Some e) \<Rightarrow>
          (Inl (Errorf_open (WorkingPath c) e),
           [EvSsh (Bash (HostAlias c)), EvReadFile (WorkingPath c)])
      | (wd, None) \<Rightarrow>
          (case bash_scp w (Bash (HostAlias c)) (MasterPath c) of
             (md, Some e) \<Rightarrow>
               (Inl (Errorf_open (MasterPath c) e),
                [EvSsh (Bash (HostAlias c)), EvReadFile (WorkingPath c),
                 EvScp (Bash (HostAlias c)) (MasterPath c)])
           | (md, None) \<Rightarrow>
               (Inr \<lparr>working = wd, master = md, bash = Some (Bash (HostAlias c)),
                     missing = [], different = []\<rparr>,
                [EvSsh (Bash (HostAlias c)), EvReadFile (WorkingPath c),
                 EvScp (Bash (HostAlias c)) (MasterPath c)])))"
  by (simp add: newAnalyzer_def connect_nil read_def analyzer_zero_def Let_def
           split: prod.splits option.splits)

lemma newAnalyzer_local:
  "HostAlias c = [] \<Longrightarrow>
   newAnalyzer w c =
     (case ioutil_ReadFile w (WorkingPath c) of
        (wd, Some e) \<Rightarrow>
          (Inl (Errorf_open (WorkingPath c) e), [EvReadFile (WorkingPath c)])
      | (wd, None) \<Rightarrow>
          (case ioutil_ReadFile w (MasterPath c) of
             (md, Some e) \<Rightarrow>
               (Inl (Errorf_open (MasterPath c) e),
                [EvReadFile (WorkingPath c), EvReadFile (MasterPath c)])
           | (md, None) \<Rightarrow>
               (Inr \<lparr>working = wd, master = md, bash = None, missing = [], different = []\<rparr>,
                [EvReadFile (WorkingPath c), EvReadFile (MasterPath c)])))"
  by (simp add: newAnalyzer_def read_def analyzer_zero_def Let_def
           split: prod.splits option.splits)

text \<open>What the loader did, and what a successful load holds.\<close>

lemma newAnalyzer_remote_events:
  "HostAlias c \<noteq> [] \<Longrightarrow>
     snd (newAnalyzer w c) =
       [EvSsh (Bash (HostAlias c)), EvReadFile (WorkingPath c)]
       @ (if snd (ioutil_ReadFile w (WorkingPath c)) = None
          then [EvScp (Bash (HostAlias c)) (MasterPath c)] else [])"
  by (simp add: newAnalyzer_remote split: prod.splits option.splits)

lemma newAnalyzer_local_events:
  "HostAlias c = [] \<Longrightarrow>
     snd (newAnalyzer w c) =
       EvReadFile (WorkingPath c)
       # (if snd (ioutil_ReadFile w (WorkingPath c)) = None
          then [EvReadFile (MasterPath c)] else [])"
  by (simp add: newAnalyzer_local split: prod.splits option.splits)

lemma newAnalyzer_remote_Inr:
  "HostAlias c \<noteq> [] \<Longrightarrow> fst (newAnalyzer w c) = Inr a \<Longrightarrow>
     a = \<lparr>working = fst (ioutil_ReadFile w (WorkingPath c)),
          master = fst (bash_scp w (Bash (HostAlias c)) (MasterPath c)),
          bash = Some (Bash (HostAlias c)), missing = [], different = []\<rparr>
     \<and> snd (ioutil_ReadFile w (WorkingPath c)) = None
     \<and> snd (bash_scp w (Bash (HostAlias c)) (MasterPath c)) = None"
  by (simp add: newAnalyzer_remote split: prod.splits option.splits)

lemma newAnalyzer_local_Inr:
  "HostAlias c = [] \<Longrightarrow> fst (newAnalyzer w c) = Inr a \<Longrightarrow>
     a = \<lparr>working = fst (ioutil_ReadFile w (WorkingPath c)),
          master = fst (ioutil_ReadFile w (MasterPath c)),
          bash = None, missing = [], different = []\<rparr>
     \<and> snd (ioutil_ReadFile w (WorkingPath c)) = None
     \<and> snd (ioutil_ReadFile w (MasterPath c)) = None"
  by (simp add: newAnalyzer_local split: prod.splits option.splits)

lemma newAnalyzer_working_fails:
  "snd (ioutil_ReadFile w (WorkingPath c)) = Some e \<Longrightarrow>
     fst (newAnalyzer w c) = Inl (Errorf_open (WorkingPath c) e)"
  by (cases "HostAlias c = []")
     (auto simp add: newAnalyzer_remote newAnalyzer_local split: prod.splits option.splits)

lemma newAnalyzer_master_fails_local:
  "HostAlias c = [] \<Longrightarrow> snd (ioutil_ReadFile w (WorkingPath c)) = None \<Longrightarrow>
   snd (ioutil_ReadFile w (MasterPath c)) = Some e \<Longrightarrow>
     fst (newAnalyzer w c) = Inl (Errorf_open (MasterPath c) e)"
  by (auto simp add: newAnalyzer_local split: prod.splits option.splits)

lemma newAnalyzer_master_fails_remote:
  "HostAlias c \<noteq> [] \<Longrightarrow> snd (ioutil_ReadFile w (WorkingPath c)) = None \<Longrightarrow>
   snd (bash_scp w (Bash (HostAlias c)) (MasterPath c)) = Some e \<Longrightarrow>
     fst (newAnalyzer w c) = Inl (Errorf_open (MasterPath c) e)"
  by (auto simp add: newAnalyzer_remote split: prod.splits option.splits)

lemma ScanJson_Inl:
  "fst (newAnalyzer w c) = Inl err \<Longrightarrow>
     ScanJson scan w c = (([], Some err), snd (newAnalyzer w c))"
  by (cases "newAnalyzer w c") (simp add: ScanJson_def newJsonAnalyzer_def)

lemma ScanEnv_Inl:
  "fst (newAnalyzer w c) = Inl err \<Longrightarrow>
     ScanEnv scan w c = (([], Some err), snd (newAnalyzer w c))"
  by (cases "newAnalyzer w c") (simp add: ScanEnv_def newEnvAnalyzer_def)

lemma ScanJson_error_nil:
  "snd (fst (ScanJson scan w c)) \<noteq> None \<Longrightarrow> fst (fst (ScanJson scan w c)) = []"
  by (simp add: ScanJson_def Let_def split: prod.splits sum.splits)

lemma ScanEnv_error_nil:
  "snd (fst (ScanEnv scan w c)) \<noteq> None \<Longrightarrow> fst (fst (ScanEnv scan w c)) = []"
  by (simp add: ScanEnv_def Let_def split: prod.splits sum.splits)

text \<open>
  C1. The claim is that \<^verbatim>\<open>ScanJson\<close> and \<^verbatim>\<open>ScanEnv\<close> fail fast when the remote
  session cannot be opened: a connection error, before any file is read. The code does
  not: for the host \<^verbatim>\<open>down\<close>, whose \<^verbatim>\<open>ssh\<close> fails, both operations go on to read
  the local working file and to call \<^verbatim>\<open>scp\<close>, and the error they return is the one
  of the failed copy of the master file, not a connection error.
\<close>

theorem ScanJson_ScanEnv_unreachable_host:
  "bash_ssh world_ex (newBash (HostAlias cfg_unreachable)) = Some ''exit status 255''
   \<and> ScanJson scan world_ex cfg_unreachable =
       (([], Some ''could not open /srv/app.env. exit status 1''),
        [EvSsh (Bash ''down''), EvReadFile ''work.env'', EvScp (Bash ''down'') ''/srv/app.env''])
   \<and> ScanEnv scan world_ex cfg_unreachable =
       (([], Some ''could not open /srv/app.env. exit status 1''),
        [EvSsh (Bash ''down''), EvReadFile ''work.env'', EvScp (Bash ''down'') ''/srv/app.env''])"
  by (simp add: ScanJson_def ScanEnv_def newJsonAnalyzer_def newEnvAnalyzer_def
        newAnalyzer_remote newBash_def ex_defs)

text \<open>
  C2, as stated, has \<^verbatim>\<open>newAnalyzer\<close> always go on to the \<^verbatim>\<open>scp\<close> of the master
  file. It does not when the working file cannot be read: for the reachable host
  \<^verbatim>\<open>prod\<close> and a working file that does not exist, the events are the \<^verbatim>\<open>ssh\<close>
  and the failed local read, and no \<^verbatim>\<open>scp\<close>.
\<close>

theorem newAnalyzer_unreadable_working_no_scp:
  "HostAlias cfg_nowork \<noteq> []
   \<and> snd (newAnalyzer world_ex cfg_nowork) = [EvSsh (Bash ''prod''), EvReadFile ''gone.env'']
   \<and> EvScp (Bash ''prod'') ''/srv/app.env'' \<notin> set (snd (newAnalyzer world_ex cfg_nowork))"
  by (simp add: newAnalyzer_remote ex_defs)

text \<open>
  C2, amended. \<^verbatim>\<open>connect\<close> returns nil for every host alias, also when \<^verbatim>\<open>ssh\<close>
  fails: the error built by \<^verbatim>\<open>fmt.Errorf\<close> is discarded. So with a host alias the
  outcome of \<^verbatim>\<open>newAnalyzer\<close> does not depend on what \<^verbatim>\<open>ssh\<close> returns, and it
  always goes on to read the working file. When that read succeeds it attempts the
  \<^verbatim>\<open>scp\<close> of the master file, and returns the analyzer or the error of the
  \<^verbatim>\<open>scp\<close>. When that read fails it returns the error of the read, and the events
  are the \<^verbatim>\<open>ssh\<close> and the failed read only: no \<^verbatim>\<open>scp\<close> is attempted.
\<close>

theorem connect_error_discarded:
  "fst (fst (connect w a hostAlias)) = None
   \<and> (HostAlias c \<noteq> [] \<longrightarrow>
        newAnalyzer (w\<lparr>bash_ssh := f\<rparr>) c = newAnalyzer w c
        \<and> take 2 (snd (newAnalyzer w c)) = [EvSsh (Bash (HostAlias c)), EvReadFile (WorkingPath c)]
        \<and> (snd (ioutil_ReadFile w (WorkingPath c)) = None \<longrightarrow>
             snd (newAnalyzer w c) =
               [EvSsh (Bash (HostAlias c)), EvReadFile (WorkingPath c),
                EvScp (Bash (HostAlias c)) (MasterPath c)])
        \<and> (snd (ioutil_ReadFile w (WorkingPath c)) = Some e \<longrightarrow>
             newAnalyzer w c =
               (Inl (''could not open '' @ WorkingPath c @ ''. '' @ e),
                [EvSsh (Bash (HostAlias c)), EvReadFile (WorkingPath c)]))
        \<and> (snd (ioutil_ReadFile w (WorkingPath c)) = None \<longrightarrow>
             fst (newAnalyzer w c) =
               (case snd (bash_scp w (Bash (HostAlias c)) (MasterPath c)) of
                  Some e' \<Rightarrow> Inl (''could not open '' @ MasterPath c @ ''. '' @ e')
                | None \<Rightarrow>
                    Inr \<lparr>working = fst (ioutil_ReadFile w (WorkingPath c)),
                         master = fst (bash_scp w (Bash (HostAlias c)) (MasterPath c)),
                         bash = Some (Bash (HostAlias c)), missing = [], different = []\<rparr>)))"
proof -
  have c: "fst (fst (connect w a hostAlias)) = None"
    by (simp add: connect_nil)
  have rest: "newAnalyzer (w\<lparr>bash_ssh := f\<rparr>) c = newAnalyzer w c
        \<and> take 2 (snd (newAnalyzer w c)) = [EvSsh (Bash (HostAlias c)), EvReadFile (WorkingPath c)]
        \<and> (snd (ioutil_ReadFile w (WorkingPath c)) = None \<longrightarrow>
             snd (newAnalyzer w c) =
               [EvSsh (Bash (HostAlias c)), EvReadFile (WorkingPath c),
                EvScp (Bash (HostAlias c)) (MasterPath c)])
        \<and> (snd (ioutil_ReadFile w (WorkingPath c)) = Some e \<longrightarrow>
             newAnalyzer w c =
               (Inl (''could not open '' @ WorkingPath c @ ''. '' @ e),
                [EvSsh (Bash (HostAlias c)), EvReadFile (WorkingPath c)]))
        \<and> (snd (ioutil_ReadFile w (WorkingPath c)) = None \<longrightarrow>
             fst (newAnalyzer w c) =
               (case snd (bash_scp w (Bash (HostAlias c)) (MasterPath c)) of
                  Some e' \<Rightarrow> Inl (''could not open '' @ MasterPath c @ ''. '' @ e')
                | None \<Rightarrow>
                    Inr \<lparr>working = fst (ioutil_ReadFile w (WorkingPath c)),
                         master = fst (bash_scp w (Bash (HostAlias c)) (MasterPath c)),
                         bash = Some (Bash (HostAlias c)), missing = [], different = []\<rparr>))"
    if h: "HostAlias c \<noteq> []"
  proof (intro conjI impI)
    show "newAnalyzer (w\<lparr>bash_ssh := f\<rparr>) c = newAnalyzer w c"
      by (auto simp add: newAnalyzer_remote [OF h] split: prod.splits option.splits)
    show "take 2 (snd (newAnalyzer w c))
            = [EvSsh (Bash (HostAlias c)), EvReadFile (WorkingPath c)]"
      by (simp add: newAnalyzer_remote_events [OF h])
    show "snd (newAnalyzer w c) =
               [EvSsh (Bash (HostAlias c)), EvReadFile (WorkingPath c),
                EvScp (Bash (HostAlias c)) (MasterPath c)]"
      if "snd (ioutil_ReadFile w (WorkingPath c)) = None"
      using that by (simp add: newAnalyzer_remote_events [OF h])
    show "newAnalyzer w c =
               (Inl (''could not open '' @ WorkingPath c @ ''. '' @ e),
                [EvSsh (Bash (HostAlias c)), EvReadFile (WorkingPath c)])"
      if "snd (ioutil_ReadFile w (WorkingPath c)) = Some e"
      using that newAnalyzer_working_fails [OF that] newAnalyzer_remote_events [OF h, of w]
      by (simp add: prod_eq_iff Errorf_open_def)
    show "fst (newAnalyzer w c) =
               (case snd (bash_scp w (Bash (HostAlias c)) (MasterPath c)) of
                  Some e' \<Rightarrow> Inl (''could not open '' @ MasterPath c @ ''. '' @ e')
                | None \<Rightarrow>
                    Inr \<lparr>working = fst (ioutil_ReadFile w (WorkingPath c)),
                         master = fst (bash_scp w (Bash (HostAlias c)) (MasterPath c)),
                         bash = Some (Bash (HostAlias c)), missing = [], different = []\<rparr>)"
      if "snd (ioutil_ReadFile w (WorkingPath c)) = None"
      using that
      by (cases "ioutil_ReadFile w (WorkingPath c)";
          cases "bash_scp w (Bash (HostAlias c)) (MasterPath c)")
         (auto simp add: newAnalyzer_remote [OF h] Errorf_open_def split: option.splits)
  qed
  from c rest show ?thesis by blast
qed

theorem connect_error_discarded_witness:
  "bash_ssh world_ex (Bash ''down'') = Some ''exit status 255''
   \<and> HostAlias cfg_unreachable \<noteq> []
   \<and> snd (ioutil_ReadFile world_ex (WorkingPath cfg_unreachable)) = None
   \<and> fst (fst (connect world_ex analyzer_zero ''down'')) = None
   \<and> newAnalyzer (world_ex\<lparr>bash_ssh := (\<lambda>b. None)\<rparr>) cfg_unreachable
       = newAnalyzer world_ex cfg_unreachable
   \<and> newAnalyzer world_ex cfg_unreachable =
       (Inl ''could not open /srv/app.env. exit status 1'',
        [EvSsh (Bash ''down''), EvReadFile ''work.env'', EvScp (Bash ''down'') ''/srv/app.env''])
   \<and> HostAlias cfg_nowork \<noteq> []
   \<and> snd (ioutil_ReadFile world_ex (WorkingPath cfg_nowork))
       = Some ''open gone.env: no such file or directory''
   \<and> newAnalyzer world_ex cfg_nowork =
       (Inl ''could not open gone.env. open gone.env: no such file or directory'',
        [EvSsh (Bash ''prod''), EvReadFile ''gone.env''])"
proof -
  have h1: "HostAlias cfg_unreachable \<noteq> []"
    "snd (ioutil_ReadFile world_ex (WorkingPath cfg_unreachable)) = None"
    "snd (bash_scp world_ex (Bash (HostAlias cfg_unreachable)) (MasterPath cfg_unreachable))
       = Some ''exit status 1''"
    "bash_ssh world_ex (Bash ''down'') = Some ''exit status 255''"
    by (simp_all add: ex_defs)
  have h2: "HostAlias cfg_nowork \<noteq> []"
    "snd (ioutil_ReadFile world_ex (WorkingPath cfg_nowork))
       = Some ''open gone.env: no such file or directory''"
    by (simp_all add: ex_defs)
  have p: "HostAlias cfg_unreachable = ''down''" "WorkingPath cfg_unreachable = ''work.env''"
    "MasterPath cfg_unreachable = ''/srv/app.env''"
    "HostAlias cfg_nowork = ''prod''" "WorkingPath cfg_nowork = ''gone.env''"
    by (simp_all add: ex_defs)
  have scp: "snd (bash_scp world_ex (Bash ''down'') ''/srv/app.env'') = Some ''exit status 1''"
    by (simp add: ex_defs)
  note t1 = connect_error_discarded [of world_ex analyzer_zero "''down''" cfg_unreachable
              "\<lambda>b. None" "''unused''"]
  note t2 = connect_error_discarded [of world_ex analyzer_zero "''prod''" cfg_nowork
              "\<lambda>b. None" "''open gone.env: no such file or directory''"]
  from t1 have r0: "fst (fst (connect world_ex analyzer_zero ''down'')) = None"
    by blast
  from t1 h1(1) have r1: "newAnalyzer (world_ex\<lparr>bash_ssh := (\<lambda>b. None)\<rparr>) cfg_unreachable
       = newAnalyzer world_ex cfg_unreachable"
    by blast
  from t1 h1(1,2) have "snd (newAnalyzer world_ex cfg_unreachable) =
       [EvSsh (Bash (HostAlias cfg_unreachable)), EvReadFile (WorkingPath cfg_unreachable),
        EvScp (Bash (HostAlias cfg_unreachable)) (MasterPath cfg_unreachable)]"
    by blast
  moreover from t1 h1(1,2) have "fst (newAnalyzer world_ex cfg_unreachable) =
       (case snd (bash_scp world_ex (Bash (HostAlias cfg_unreachable)) (MasterPath cfg_unreachable)) of
          Some e' \<Rightarrow> Inl (''could not open '' @ MasterPath cfg_unreachable @ ''. '' @ e')
        | None \<Rightarrow>
            Inr \<lparr>working = fst (ioutil_ReadFile world_ex (WorkingPath cfg_unreachable)),
                 master = fst (bash_scp world_ex (Bash (HostAlias cfg_unreachable))
                                 (MasterPath cfg_unreachable)),
                 bash = Some (Bash (HostAlias cfg_unreachable)), missing = [], different = []\<rparr>)"
    by blast
  ultimately have r2: "newAnalyzer world_ex cfg_unreachable =
       (Inl ''could not open /srv/app.env. exit status 1'',
        [EvSsh (Bash ''down''), EvReadFile ''work.env'', EvScp (Bash ''down'') ''/srv/app.env''])"
    by (simp add: scp p prod_eq_iff)
  from t2 h2 have "newAnalyzer world_ex cfg_nowork =
       (Inl (''could not open '' @ WorkingPath cfg_nowork @ ''. ''
               @ ''open gone.env: no such file or directory''),
        [EvSsh (Bash (HostAlias cfg_nowork)), EvReadFile (WorkingPath cfg_nowork)])"
    by blast
  then have r3: "newAnalyzer world_ex cfg_nowork =
       (Inl ''could not open gone.env. open gone.env: no such file or directory'',
        [EvSsh (Bash ''prod''), EvReadFile ''gone.env''])"
    by (simp add: p)
  from h1 h2 r0 r1 r2 r3 show ?thesis by blast
qed

text \<open>
  C4, as stated, has the loader fetch the master file for every configuration: through
  \<^verbatim>\<open>scp\<close> with a host alias, from the local disk without one. It does neither
  when the working file cannot be read: with the host alias \<^verbatim>\<open>prod\<close> and a working
  file that does not exist the events are the \<^verbatim>\<open>ssh\<close> and the failed local read,
  with no \<^verbatim>\<open>scp\<close>; without a host alias the failed local read is the only event,
  and the master file is not read.
\<close>

theorem loader_unreadable_working_no_master_fetch:
  "HostAlias cfg_nowork \<noteq> []
   \<and> newAnalyzer world_ex cfg_nowork =
       (Inl ''could not open gone.env. open gone.env: no such file or directory'',
        [EvSsh (Bash ''prod''), EvReadFile ''gone.env''])
   \<and> EvScp (Bash ''prod'') (MasterPath cfg_nowork) \<notin> set (snd (newAnalyzer world_ex cfg_nowork))
   \<and> HostAlias cfg_nowork_local = []
   \<and> newAnalyzer world_ex cfg_nowork_local =
       (Inl ''could not open gone.env. open gone.env: no such file or directory'',
        [EvReadFile ''gone.env''])
   \<and> EvReadFile (MasterPath cfg_nowork_local) \<notin> set (snd (newAnalyzer world_ex cfg_nowork_local))"
  by (simp add: newAnalyzer_remote newAnalyzer_local ex_defs)

text \<open>
  C4, amended. With a host alias (so that the analyzer holds a session handle) the
  loader reads the working file from the local disk and, when that read has succeeded,
  fetches the master file through \<^verbatim>\<open>scp\<close> at \<^verbatim>\<open>MasterPath\<close>; without a host
  alias it reads the working file from the local disk and, when that read has
  succeeded, the master file too. When the read of the working file fails, the master
  file is not fetched at all. A load succeeds exactly when both calls return no error,
  and then holds the bytes these two calls returned.
\<close>

theorem loader_sources:
  "(HostAlias c \<noteq> [] \<longrightarrow>
      snd (newAnalyzer w c) =
        [EvSsh (Bash (HostAlias c)), EvReadFile (WorkingPath c)]
        @ (if snd (ioutil_ReadFile w (WorkingPath c)) = None
           then [EvScp (Bash (HostAlias c)) (MasterPath c)] else [])
      \<and> (fst (newAnalyzer w c) = Inr a \<longrightarrow>
            working a = fst (ioutil_ReadFile w (WorkingPath c))
            \<and> master a = fst (bash_scp w (Bash (HostAlias c)) (MasterPath c))))
   \<and> (HostAlias c = [] \<longrightarrow>
      snd (newAnalyzer w c) =
        EvReadFile (WorkingPath c)
        # (if snd (ioutil_ReadFile w (WorkingPath c)) = None
           then [EvReadFile (MasterPath c)] else [])
      \<and> (fst (newAnalyzer w c) = Inr a \<longrightarrow>
            working a = fst (ioutil_ReadFile w (WorkingPath c))
            \<and> master a = fst (ioutil_ReadFile w (MasterPath c))))
   \<and> (HostAlias c \<noteq> [] \<and> snd (ioutil_ReadFile w (WorkingPath c)) = None
        \<and> snd (bash_scp w (Bash (HostAlias c)) (MasterPath c)) = None \<longrightarrow>
      fst (newAnalyzer w c) =
        Inr \<lparr>working = fst (ioutil_ReadFile w (WorkingPath c)),
             master = fst (bash_scp w (Bash (HostAlias c)) (MasterPath c)),
             bash = Some (Bash (HostAlias c)), missing = [], different = []\<rparr>)
   \<and> (HostAlias c = [] \<and> snd (ioutil_ReadFile w (WorkingPath c)) = None
        \<and> snd (ioutil_ReadFile w (MasterPath c)) = None \<longrightarrow>
      fst (newAnalyzer w c) =
        Inr \<lparr>working = fst (ioutil_ReadFile w (WorkingPath c)),
             master = fst (ioutil_ReadFile w (MasterPath c)),
             bash = None, missing = [], different = []\<rparr>)
   \<and> (fst (newAnalyzer w c) = Inr a \<longrightarrow>
        snd (ioutil_ReadFile w (WorkingPath c)) = None
        \<and> (if HostAlias c = [] then snd (ioutil_ReadFile w (MasterPath c))
            else snd (bash_scp w (Bash (HostAlias c)) (MasterPath c))) = None)"
proof -
  have local_ok: "fst (newAnalyzer w c) =
        Inr \<lparr>working = fst (ioutil_ReadFile w (WorkingPath c)),
             master = fst (ioutil_ReadFile w (MasterPath c)),
             bash = None, missing = [], different = []\<rparr>"
    if "HostAlias c = []" "snd (ioutil_ReadFile w (WorkingPath c)) = None"
       "snd (ioutil_ReadFile w (MasterPath c)) = None"
    using that
    by (cases "ioutil_ReadFile w (WorkingPath c)"; cases "ioutil_ReadFile w (MasterPath c)")
       (simp add: newAnalyzer_local)
  have remote_ok: "fst (newAnalyzer w c) =
        Inr \<lparr>working = fst (ioutil_ReadFile w (WorkingPath c)),
             master = fst (bash_scp w (Bash (HostAlias c)) (MasterPath c)),
             bash = Some (Bash (HostAlias c)), missing = [], different = []\<rparr>"
    if "HostAlias c \<noteq> []" "snd (ioutil_ReadFile w (WorkingPath c)) = None"
       "snd (bash_scp w (Bash (HostAlias c)) (MasterPath c)) = None"
    using that
    by (cases "ioutil_ReadFile w (WorkingPath c)";
        cases "bash_scp w (Bash (HostAlias c)) (MasterPath c)")
       (simp add: newAnalyzer_remote)
  show ?thesis
  proof (cases "HostAlias c = []")
    case True
    have "fst (newAnalyzer w c) = Inr a \<Longrightarrow>
            working a = fst (ioutil_ReadFile w (WorkingPath c))
            \<and> master a = fst (ioutil_ReadFile w (MasterPath c))
            \<and> snd (ioutil_ReadFile w (WorkingPath c)) = None
            \<and> snd (ioutil_ReadFile w (MasterPath c)) = None"
      using newAnalyzer_local_Inr [OF True, of w a] by simp
    with True newAnalyzer_local_events [OF True, of w] local_ok show ?thesis by simp
  next
    case False
    have "fst (newAnalyzer w c) = Inr a \<Longrightarrow>
            working a = fst (ioutil_ReadFile w (WorkingPath c))
            \<and> master a = fst (bash_scp w (Bash (HostAlias c)) (MasterPath c))
            \<and> snd (ioutil_ReadFile w (WorkingPath c)) = None
            \<and> snd (bash_scp w (Bash (HostAlias c)) (MasterPath c)) = None"
      using newAnalyzer_remote_Inr [OF False, of w a] by simp
    with False newAnalyzer_remote_events [OF False, of w] remote_ok show ?thesis by simp
  qed
qed

theorem loader_sources_witness:
  "HostAlias cfg_remote \<noteq> [] \<and> HostAlias cfg_local = []
   \<and> snd (ioutil_ReadFile world_ex (WorkingPath cfg_remote)) = None
   \<and> snd (bash_scp world_ex (Bash (HostAlias cfg_remote)) (MasterPath cfg_remote)) = None
   \<and> snd (newAnalyzer world_ex cfg_remote) =
        [EvSsh (Bash ''prod''), EvReadFile ''work.env'', EvScp (Bash ''prod'') ''/srv/app.env'']
   \<and> fst (newAnalyzer world_ex cfg_remote) =
        Inr \<lparr>working = ''FOO=1'', master = ''FOO=1'' @ [CHR 0x0A] @ ''BAR=2'',
             bash = Some (Bash ''prod''), missing = [], different = []\<rparr>
   \<and> fst (bash_scp world_ex (Bash ''prod'') ''/srv/app.env'') = ''FOO=1'' @ [CHR 0x0A] @ ''BAR=2''
   \<and> snd (ioutil_ReadFile world_ex (WorkingPath cfg_local)) = None
   \<and> snd (ioutil_ReadFile world_ex (MasterPath cfg_local)) = None
   \<and> snd (newAnalyzer world_ex cfg_local) = [EvReadFile ''work.env'', EvReadFile ''master.env'']
   \<and> fst (newAnalyzer world_ex cfg_local) =
        Inr \<lparr>working = ''FOO=1'', master = ''FOO=1'' @ [CHR 0x0A] @ ''BAR=2'',
             bash = None, missing = [], different = []\<rparr>
   \<and> fst (ioutil_ReadFile world_ex ''work.env'') = ''FOO=1''
   \<and> fst (ioutil_ReadFile world_ex ''master.env'') = ''FOO=1'' @ [CHR 0x0A] @ ''BAR=2''
   \<and> HostAlias cfg_nowork \<noteq> []
   \<and> snd (ioutil_ReadFile world_ex (WorkingPath cfg_nowork)) \<noteq> None
   \<and> snd (newAnalyzer world_ex cfg_nowork) = [EvSsh (Bash ''prod''), EvReadFile ''gone.env'']"
proof -
  let ?R = "\<lparr>working = ''FOO=1'', master = ''FOO=1'' @ [CHR 0x0A] @ ''BAR=2'',
             bash = Some (Bash ''prod''), missing = [], different = []\<rparr>"
  let ?L = "\<lparr>working = ''FOO=1'', master = ''FOO=1'' @ [CHR 0x0A] @ ''BAR=2'',
             bash = None, missing = [], different = []\<rparr>"
  have h:
    "HostAlias cfg_remote \<noteq> []" "HostAlias cfg_local = []" "HostAlias cfg_nowork \<noteq> []"
    "snd (ioutil_ReadFile world_ex (WorkingPath cfg_remote)) = None"
    "snd (bash_scp world_ex (Bash (HostAlias cfg_remote)) (MasterPath cfg_remote)) = None"
    "snd (ioutil_ReadFile world_ex (WorkingPath cfg_local)) = None"
    "snd (ioutil_ReadFile world_ex (MasterPath cfg_local)) = None"
    "snd (ioutil_ReadFile world_ex (WorkingPath cfg_nowork)) \<noteq> None"
    by (simp_all add: ex_defs)
  have v:
    "fst (ioutil_ReadFile world_ex ''work.env'') = ''FOO=1''"
    "fst (ioutil_ReadFile world_ex ''master.env'') = ''FOO=1'' @ [CHR 0x0A] @ ''BAR=2''"
    "fst (bash_scp world_ex (Bash ''prod'') ''/srv/app.env'') = ''FOO=1'' @ [CHR 0x0A] @ ''BAR=2''"
    by (simp_all add: ex_defs)
  have p:
    "HostAlias cfg_remote = ''prod''" "WorkingPath cfg_remote = ''work.env''"
    "MasterPath cfg_remote = ''/srv/app.env''"
    "WorkingPath cfg_local = ''work.env''" "MasterPath cfg_local = ''master.env''"
    "HostAlias cfg_nowork = ''prod''" "WorkingPath cfg_nowork = ''gone.env''"
    by (simp_all add: ex_defs)
  note t1 = loader_sources [of cfg_remote world_ex ?R]
  note t2 = loader_sources [of cfg_local world_ex ?L]
  note t3 = loader_sources [of cfg_nowork world_ex ?R]
  from t1 h(1)
  have "snd (newAnalyzer world_ex cfg_remote) =
          [EvSsh (Bash (HostAlias cfg_remote)), EvReadFile (WorkingPath cfg_remote)]
          @ (if snd (ioutil_ReadFile world_ex (WorkingPath cfg_remote)) = None
             then [EvScp (Bash (HostAlias cfg_remote)) (MasterPath cfg_remote)] else [])"
    by blast
  then have e1: "snd (newAnalyzer world_ex cfg_remote) =
          [EvSsh (Bash (HostAlias cfg_remote)), EvReadFile (WorkingPath cfg_remote),
           EvScp (Bash (HostAlias cfg_remote)) (MasterPath cfg_remote)]"
    by (simp add: h(4))
  from t1 h(1,4,5)
  have "fst (newAnalyzer world_ex cfg_remote) =
          Inr \<lparr>working = fst (ioutil_ReadFile world_ex (WorkingPath cfg_remote)),
               master = fst (bash_scp world_ex (Bash (HostAlias cfg_remote)) (MasterPath cfg_remote)),
               bash = Some (Bash (HostAlias cfg_remote)), missing = [], different = []\<rparr>"
    by blast
  with e1
  have r1: "snd (newAnalyzer world_ex cfg_remote) =
        [EvSsh (Bash ''prod''), EvReadFile ''work.env'', EvScp (Bash ''prod'') ''/srv/app.env'']
      \<and> fst (newAnalyzer world_ex cfg_remote) = Inr ?R"
    using v by (simp add: p)
  from t2 h(2)
  have "snd (newAnalyzer world_ex cfg_local) =
          EvReadFile (WorkingPath cfg_local)
          # (if snd (ioutil_ReadFile world_ex (WorkingPath cfg_local)) = None
             then [EvReadFile (MasterPath cfg_local)] else [])"
    by blast
  then have e2: "snd (newAnalyzer world_ex cfg_local) =
          [EvReadFile (WorkingPath cfg_local), EvReadFile (MasterPath cfg_local)]"
    by (simp add: h(6))
  from t2 h(2,6,7)
  have "fst (newAnalyzer world_ex cfg_local) =
          Inr \<lparr>working = fst (ioutil_ReadFile world_ex (WorkingPath cfg_local)),
               master = fst (ioutil_ReadFile world_ex (MasterPath cfg_local)),
               bash = None, missing = [], different = []\<rparr>"
    by blast
  with e2
  have r2: "snd (newAnalyzer world_ex cfg_local)
        = [EvReadFile ''work.env'', EvReadFile ''master.env'']
      \<and> fst (newAnalyzer world_ex cfg_local) = Inr ?L"
    using v by (simp add: p)
  from t3 h(3)
  have "snd (newAnalyzer world_ex cfg_nowork) =
          [EvSsh (Bash (HostAlias cfg_nowork)), EvReadFile (WorkingPath cfg_nowork)]
          @ (if snd (ioutil_ReadFile world_ex (WorkingPath cfg_nowork)) = None
             then [EvScp (Bash (HostAlias cfg_nowork)) (MasterPath cfg_nowork)] else [])"
    by blast
  then have "snd (newAnalyzer world_ex cfg_nowork) =
          [EvSsh (Bash (HostAlias cfg_nowork)), EvReadFile (WorkingPath cfg_nowork)]"
    by (simp add: h(8))
  then have r3: "snd (newAnalyzer world_ex cfg_nowork)
        = [EvSsh (Bash ''prod''), EvReadFile ''gone.env'']"
    by (simp add: p)
  from h v r1 r2 r3 show ?thesis by blast
qed

text \<open>
  C5. When the read of the working path fails, or the fetch of the master path does
  (from the local disk without a host alias, through \<^verbatim>\<open>scp\<close> with one), the
  operation stops there: \<^verbatim>\<open>ScanJson\<close> and \<^verbatim>\<open>ScanEnv\<close> return a nil list of
  missing keys together with the error \<^verbatim>\<open>could not open <path>. <cause>\<close> that names
  the path which failed, and nothing happens after the failed read. Whenever either
  operation returns an error, its list is nil.
\<close>

theorem read_failure_aborts:
  "(snd (ioutil_ReadFile w (WorkingPath c)) = Some e \<longrightarrow>
      fst (ScanJson scan w c) = ([], Some (''could not open '' @ WorkingPath c @ ''. '' @ e))
      \<and> fst (ScanEnv scan w c) = ([], Some (''could not open '' @ WorkingPath c @ ''. '' @ e))
      \<and> snd (ScanJson scan w c)
          = (if HostAlias c = [] then [] else [EvSsh (Bash (HostAlias c))])
            @ [EvReadFile (WorkingPath c)]
      \<and> snd (ScanEnv scan w c) = snd (ScanJson scan w c))
   \<and> (snd (ioutil_ReadFile w (WorkingPath c)) = None \<and> HostAlias c = []
        \<and> snd (ioutil_ReadFile w (MasterPath c)) = Some e \<longrightarrow>
      fst (ScanJson scan w c) = ([], Some (''could not open '' @ MasterPath c @ ''. '' @ e))
      \<and> fst (ScanEnv scan w c) = ([], Some (''could not open '' @ MasterPath c @ ''. '' @ e)))
   \<and> (snd (ioutil_ReadFile w (WorkingPath c)) = None \<and> HostAlias c \<noteq> []
        \<and> snd (bash_scp w (Bash (HostAlias c)) (MasterPath c)) = Some e \<longrightarrow>
      fst (ScanJson scan w c) = ([], Some (''could not open '' @ MasterPath c @ ''. '' @ e))
      \<and> fst (ScanEnv scan w c) = ([], Some (''could not open '' @ MasterPath c @ ''. '' @ e)))
   \<and> (snd (fst (ScanJson scan w c)) \<noteq> None \<longrightarrow> fst (fst (ScanJson scan w c)) = [])
   \<and> (snd (fst (ScanEnv scan w c)) \<noteq> None \<longrightarrow> fst (fst (ScanEnv scan w c)) = [])"
proof -
  have working:
    "fst (ScanJson scan w c) = ([], Some (''could not open '' @ WorkingPath c @ ''. '' @ e))
     \<and> fst (ScanEnv scan w c) = ([], Some (''could not open '' @ WorkingPath c @ ''. '' @ e))
     \<and> snd (ScanJson scan w c)
         = (if HostAlias c = [] then [] else [EvSsh (Bash (HostAlias c))])
           @ [EvReadFile (WorkingPath c)]
     \<and> snd (ScanEnv scan w c) = snd (ScanJson scan w c)"
    if f: "snd (ioutil_ReadFile w (WorkingPath c)) = Some e"
  proof -
    note inl = newAnalyzer_working_fails [OF f]
    have ev: "snd (newAnalyzer w c)
          = (if HostAlias c = [] then [] else [EvSsh (Bash (HostAlias c))])
            @ [EvReadFile (WorkingPath c)]"
      using f newAnalyzer_local_events [of c w] newAnalyzer_remote_events [of c w]
      by (cases "HostAlias c = []") simp_all
    show ?thesis
      using ev by (simp add: ScanJson_Inl [OF inl] ScanEnv_Inl [OF inl] Errorf_open_def)
  qed
  have local:
    "fst (ScanJson scan w c) = ([], Some (''could not open '' @ MasterPath c @ ''. '' @ e))
     \<and> fst (ScanEnv scan w c) = ([], Some (''could not open '' @ MasterPath c @ ''. '' @ e))"
    if "snd (ioutil_ReadFile w (WorkingPath c)) = None" "HostAlias c = []"
       "snd (ioutil_ReadFile w (MasterPath c)) = Some e"
  proof -
    note inl = newAnalyzer_master_fails_local [OF that(2) that(1) that(3)]
    show ?thesis
      by (simp add: ScanJson_Inl [OF inl] ScanEnv_Inl [OF inl] Errorf_open_def)
  qed
  have remote:
    "fst (ScanJson scan w c) = ([], Some (''could not open '' @ MasterPath c @ ''. '' @ e))
     \<and> fst (ScanEnv scan w c) = ([], Some (''could not open '' @ MasterPath c @ ''. '' @ e))"
    if "snd (ioutil_ReadFile w (WorkingPath c)) = None" "HostAlias c \<noteq> []"
       "snd (bash_scp w (Bash (HostAlias c)) (MasterPath c)) = Some e"
  proof -
    note inl = newAnalyzer_master_fails_remote [OF that(2) that(1) that(3)]
    show ?thesis
      by (simp add: ScanJson_Inl [OF inl] ScanEnv_Inl [OF inl] Errorf_open_def)
  qed
  from working local remote ScanJson_error_nil [of scan w c] ScanEnv_error_nil [of scan w c]
  show ?thesis by blast
qed

theorem read_failure_aborts_witness:
  "snd (ioutil_ReadFile world_ex (WorkingPath cfg_nowork))
      = Some ''open gone.env: no such file or directory''
   \<and> ScanJson (jsonAnalyzer_scan decode_ex) world_ex cfg_nowork =
       (([], Some ''could not open gone.env. open gone.env: no such file or directory''),
        [EvSsh (Bash ''prod''), EvReadFile ''gone.env''])
   \<and> snd (ioutil_ReadFile world_ex (WorkingPath cfg_nomaster)) = None
   \<and> HostAlias cfg_nomaster = []
   \<and> snd (ioutil_ReadFile world_ex (MasterPath cfg_nomaster))
      = Some ''open gone.env: no such file or directory''
   \<and> fst (ScanEnv envAnalyzer_scan world_ex cfg_nomaster) =
       ([], Some ''could not open gone.env. open gone.env: no such file or directory'')
   \<and> snd (ioutil_ReadFile world_ex (WorkingPath cfg_unreachable)) = None
   \<and> HostAlias cfg_unreachable \<noteq> []
   \<and> snd (bash_scp world_ex (Bash (HostAlias cfg_unreachable)) (MasterPath cfg_unreachable))
      = Some ''exit status 1''
   \<and> fst (ScanEnv envAnalyzer_scan world_ex cfg_unreachable)
      = ([], Some ''could not open /srv/app.env. exit status 1'')"
  using read_failure_aborts [of world_ex cfg_nowork "''open gone.env: no such file or directory''"
          "jsonAnalyzer_scan decode_ex"]
        read_failure_aborts [of world_ex cfg_nomaster "''open gone.env: no such file or directory''"
          envAnalyzer_scan]
        read_failure_aborts [of world_ex cfg_unreachable "''exit status 1''" envAnalyzer_scan]
  by (simp add: ex_defs prod_eq_iff)

section \<open>Properties of the print operations\<close>

text \<open>What \<^verbatim>\<open>PrintJson\<close> and \<^verbatim>\<open>PrintEnv\<close> do after the constructor returned.\<close>

lemma PrintJson_Inr:
  "newJsonAnalyzer w c = (Inr a, t) \<Longrightarrow>
   PrintJson scan equality w c =
     (if missing (scan a) \<noteq> []
      then (None, t @ [EvPrintf (msg_missing (WorkingPath c) (missing (scan a)))])
      else (case snd (equality (scan a)) of
              Some err \<Rightarrow> (Some err, t)
            | None \<Rightarrow>
                (None, t @ (if fst (equality (scan a)) then []
                            else [EvPrintf (msg_different (WorkingPath c) (MasterPath c))]))))"
  by (simp add: PrintJson_def Let_def split: prod.splits option.splits)

lemma PrintJson_Inl:
  "newJsonAnalyzer w c = (Inl err, t) \<Longrightarrow> PrintJson scan equality w c = (Some err, t)"
  by (simp add: PrintJson_def)

lemma PrintEnv_Inr:
  "newEnvAnalyzer w c = (Inr a, t) \<Longrightarrow>
   PrintEnv scan w c =
     (if missing (scan a) \<noteq> []
      then (None, t @ [EvPrintf (msg_missing (WorkingPath c) (missing (scan a)))])
      else (None, t @ (if different (scan a) = [] then []
                       else [EvPrintf (msg_different (WorkingPath c) (MasterPath c)),
                             EvPrintf (msg_keys (different (scan a)))])))"
  by (simp add: PrintEnv_def Let_def)

lemma PrintEnv_Inl:
  "newEnvAnalyzer w c = (Inl err, t) \<Longrightarrow> PrintEnv scan w c = (Some err, t)"
  by (simp add: PrintEnv_def)

text \<open>The operations on the concrete files.\<close>

lemma parseEnv_work: "parseEnv ''FOO=1'' = [(''FOO'', ''1'')]"
  by code_simp

lemma parseEnv_master:
  "parseEnv (''FOO=1'' @ [CHR 0x0A] @ ''BAR=2'') = [(''FOO'', ''1''), (''BAR'', ''2'')]"
  by code_simp

lemma parseEnv_other:
  "parseEnv (''FOO=1'' @ [CHR 0x0A] @ ''BAR=3'') = [(''FOO'', ''1''), (''BAR'', ''3'')]"
  by code_simp

lemma decode_ex_simps:
  "decode_ex json_a1 = Some tree_a1" "decode_ex json_a2 = Some tree_a2"
  "decode_ex json_ab = Some tree_ab"
  by (simp_all add: decode_ex_def json_a1_def json_a2_def json_ab_def)

lemma json_scan_a1_ab: "json_scan tree_a1 tree_ab = [''b'']"
  by (simp add: json_scan_def json_scan_paths_def tree_a1_def tree_ab_def)

lemma json_scan_a2_a1: "json_scan tree_a2 tree_a1 = []"
  by (simp add: json_scan_def json_scan_paths_def tree_a1_def tree_a2_def)

lemma json_equal_a2_a1: "\<not> json_equal tree_a2 tree_a1"
  by (simp add: tree_a1_def tree_a2_def)

lemma newAnalyzer_cfg_json_missing:
  "newAnalyzer world_ex cfg_json_missing =
     (Inr \<lparr>working = json_a1, master = json_ab, bash = None, missing = [], different = []\<rparr>,
      [EvReadFile ''a1.json'', EvReadFile ''ab.json''])"
  by (simp add: newAnalyzer_local ex_defs)

lemma newAnalyzer_cfg_json_differ:
  "newAnalyzer world_ex cfg_json_differ =
     (Inr \<lparr>working = json_a2, master = json_a1, bash = None, missing = [], different = []\<rparr>,
      [EvReadFile ''a2.json'', EvReadFile ''a1.json''])"
  by (simp add: newAnalyzer_local ex_defs)

lemma newAnalyzer_cfg_local:
  "newAnalyzer world_ex cfg_local =
     (Inr \<lparr>working = ''FOO=1'', master = ''FOO=1'' @ [CHR 0x0A] @ ''BAR=2'', bash = None,
           missing = [], different = []\<rparr>,
      [EvReadFile ''work.env'', EvReadFile ''master.env''])"
  by (simp add: newAnalyzer_local ex_defs)

lemma newAnalyzer_cfg_other:
  "newAnalyzer world_ex cfg_other =
     (Inr \<lparr>working = ''FOO=1'' @ [CHR 0x0A] @ ''BAR=3'',
           master = ''FOO=1'' @ [CHR 0x0A] @ ''BAR=2'', bash = None,
           missing = [], different = []\<rparr>,
      [EvReadFile ''other.env'', EvReadFile ''master.env''])"
  by (simp add: newAnalyzer_local ex_defs)

lemma envAnalyzer_scan_local:
  "envAnalyzer_scan \<lparr>working = ''FOO=1'', master = ''FOO=1'' @ [CHR 0x0A] @ ''BAR=2'',
       bash = None, missing = [], different = []\<rparr>
   = \<lparr>working = ''FOO=1'', master = ''FOO=1'' @ [CHR 0x0A] @ ''BAR=2'',
       bash = None, missing = [''BAR''], different = []\<rparr>"
  using parseEnv_work parseEnv_master by (simp add: envAnalyzer_scan_def env_scan_def env_diff_def)

lemma envAnalyzer_scan_other:
  "envAnalyzer_scan \<lparr>working = ''FOO=1'' @ [CHR 0x0A] @ ''BAR=3'',
       master = ''FOO=1'' @ [CHR 0x0A] @ ''BAR=2'',
       bash = None, missing = [], different = []\<rparr>
   = \<lparr>working = ''FOO=1'' @ [CHR 0x0A] @ ''BAR=3'',
       master = ''FOO=1'' @ [CHR 0x0A] @ ''BAR=2'',
       bash = None, missing = [], different = [''BAR'']\<rparr>"
  using parseEnv_other parseEnv_master by (simp add: envAnalyzer_scan_def env_scan_def env_diff_def)

text \<open>
  C3. Missing keys take priority over value differences. Whenever the scan has reported
  at least one missing key, \<^verbatim>\<open>PrintJson\<close> and \<^verbatim>\<open>PrintEnv\<close> print the list of
  missing keys, return nil and do nothing else: \<^verbatim>\<open>PrintJson\<close> does not call
  \<^verbatim>\<open>equality\<close> (its outcome is the same for every equality method) and
  \<^verbatim>\<open>PrintEnv\<close> does not look at the list of different keys. Only when the list of
  missing keys is empty does \<^verbatim>\<open>PrintJson\<close> report the verdict of \<^verbatim>\<open>equality\<close>, and
  \<^verbatim>\<open>PrintEnv\<close> the list of different keys.
\<close>

theorem missing_keys_take_priority:
  "(newJsonAnalyzer w c = (Inr a, t) \<and> missing (scan a) \<noteq> [] \<longrightarrow>
      PrintJson scan equality w c
        = (None, t @ [EvPrintf (msg_missing (WorkingPath c) (missing (scan a)))])
      \<and> PrintJson scan equality' w c = PrintJson scan equality w c)
   \<and> (newJsonAnalyzer w c = (Inr a, t) \<and> missing (scan a) = [] \<longrightarrow>
      PrintJson scan equality w c =
        (case snd (equality (scan a)) of
           Some err \<Rightarrow> (Some err, t)
         | None \<Rightarrow>
             (None, t @ (if fst (equality (scan a)) then []
                         else [EvPrintf (msg_different (WorkingPath c) (MasterPath c))]))))
   \<and> (newEnvAnalyzer w c = (Inr a, t) \<and> missing (scan a) \<noteq> [] \<longrightarrow>
      PrintEnv scan w c
        = (None, t @ [EvPrintf (msg_missing (WorkingPath c) (missing (scan a)))]))
   \<and> (newEnvAnalyzer w c = (Inr a, t) \<and> missing (scan a) = [] \<longrightarrow>
      PrintEnv scan w c =
        (None, t @ (if different (scan a) = [] then []
                    else [EvPrintf (msg_different (WorkingPath c) (MasterPath c)),
                          EvPrintf (msg_keys (different (scan a)))])))"
proof -
  have j1: "PrintJson scan eq w c
        = (None, t @ [EvPrintf (msg_missing (WorkingPath c) (missing (scan a)))])"
    if "newJsonAnalyzer w c = (Inr a, t)" "missing (scan a) \<noteq> []" for eq
    using that by (simp add: PrintJson_Inr)
  have j2: "PrintJson scan equality w c =
        (case snd (equality (scan a)) of
           Some err \<Rightarrow> (Some err, t)
         | None \<Rightarrow>
             (None, t @ (if fst (equality (scan a)) then []
                         else [EvPrintf (msg_different (WorkingPath c) (MasterPath c))])))"
    if "newJsonAnalyzer w c = (Inr a, t)" "missing (scan a) = []"
    using that by (simp add: PrintJson_Inr)
  have e1: "PrintEnv scan w c
        = (None, t @ [EvPrintf (msg_missing (WorkingPath c) (missing (scan a)))])"
    if "newEnvAnalyzer w c = (Inr a, t)" "missing (scan a) \<noteq> []"
    using that by (simp add: PrintEnv_Inr)
  have e2: "PrintEnv scan w c =
        (None, t @ (if different (scan a) = [] then []
                    else [EvPrintf (msg_different (WorkingPath c) (MasterPath c)),
                          EvPrintf (msg_keys (different (scan a)))]))"
    if "newEnvAnalyzer w c = (Inr a, t)" "missing (scan a) = []"
    using that by (simp add: PrintEnv_Inr)
  from j1 [of equality] j1 [of equality'] j2 e1 e2 show ?thesis by simp
qed

theorem missing_keys_take_priority_witness:
  "PrintJson (jsonAnalyzer_scan decode_ex) (jsonAnalyzer_equality decode_ex) world_ex cfg_json_missing
     = (None, [EvReadFile ''a1.json'', EvReadFile ''ab.json'',
               EvPrintf (''(!) found missing keys in a1.json: [b]'' @ [CHR 0x0A])])
   \<and> PrintJson (jsonAnalyzer_scan decode_ex) (\<lambda>a. (False, Some ''unused'')) world_ex cfg_json_missing
     = PrintJson (jsonAnalyzer_scan decode_ex) (jsonAnalyzer_equality decode_ex) world_ex cfg_json_missing
   \<and> PrintJson (jsonAnalyzer_scan decode_ex) (jsonAnalyzer_equality decode_ex) world_ex cfg_json_differ
     = (None, [EvReadFile ''a2.json'', EvReadFile ''a1.json'',
               EvPrintf (''(!) a2.json and a1.json are different. Ignore if this is intentional''
                         @ [CHR 0x0A])])
   \<and> PrintEnv envAnalyzer_scan world_ex cfg_local
     = (None, [EvReadFile ''work.env'', EvReadFile ''master.env'',
               EvPrintf (''(!) found missing keys in work.env: [BAR]'' @ [CHR 0x0A])])
   \<and> PrintEnv envAnalyzer_scan world_ex cfg_other
     = (None, [EvReadFile ''other.env'', EvReadFile ''master.env'',
               EvPrintf (''(!) other.env and master.env are different. Ignore if this is intentional''
                         @ [CHR 0x0A]),
               EvPrintf (''[BAR]'' @ [CHR 0x0A])])"
proof -
  let ?A1 = "\<lparr>working = json_a1, master = json_ab, bash = None, missing = [], different = []\<rparr>"
  let ?A2 = "\<lparr>working = json_a2, master = json_a1, bash = None, missing = [], different = []\<rparr>"
  let ?A3 = "\<lparr>working = ''FOO=1'', master = ''FOO=1'' @ [CHR 0x0A] @ ''BAR=2'', bash = None,
              missing = [], different = []\<rparr>"
  let ?A4 = "\<lparr>working = ''FOO=1'' @ [CHR 0x0A] @ ''BAR=3'',
              master = ''FOO=1'' @ [CHR 0x0A] @ ''BAR=2'', bash = None,
              missing = [], different = []\<rparr>"
  let ?js = "jsonAnalyzer_scan decode_ex"
  let ?je = "jsonAnalyzer_equality decode_ex"
  have paths:
    "WorkingPath cfg_json_missing = ''a1.json''" "MasterPath cfg_json_missing = ''ab.json''"
    "WorkingPath cfg_json_differ = ''a2.json''" "MasterPath cfg_json_differ = ''a1.json''"
    "WorkingPath cfg_local = ''work.env''" "MasterPath cfg_local = ''master.env''"
    "WorkingPath cfg_other = ''other.env''" "MasterPath cfg_other = ''master.env''"
    by (simp_all add: cfg_json_missing_def cfg_json_differ_def cfg_local_def cfg_other_def)
  note msgs = msg_missing_def msg_different_def msg_keys_def fmt_strings_def
  have s1: "missing (?js ?A1) = [''b'']"
    by (simp add: jsonAnalyzer_scan_def decode_ex_simps json_scan_a1_ab)
  have s2: "missing (?js ?A2) = []"
    by (simp add: jsonAnalyzer_scan_def decode_ex_simps json_scan_a2_a1)
  have q2: "?je (?js ?A2) = (False, None)"
    by (simp add: jsonAnalyzer_scan_def jsonAnalyzer_equality_def decode_ex_simps
          json_scan_a2_a1 json_equal_a2_a1)
  have s3: "missing (envAnalyzer_scan ?A3) = [''BAR'']"
    using envAnalyzer_scan_local by simp
  have s4: "missing (envAnalyzer_scan ?A4) = []" "different (envAnalyzer_scan ?A4) = [''BAR'']"
    using envAnalyzer_scan_other by simp_all
  have c1: "newJsonAnalyzer world_ex cfg_json_missing
              = (Inr ?A1, [EvReadFile ''a1.json'', EvReadFile ''ab.json''])"
    by (simp add: newJsonAnalyzer_def newAnalyzer_cfg_json_missing)
  have c2: "newJsonAnalyzer world_ex cfg_json_differ
              = (Inr ?A2, [EvReadFile ''a2.json'', EvReadFile ''a1.json''])"
    by (simp add: newJsonAnalyzer_def newAnalyzer_cfg_json_differ)
  have c3: "newEnvAnalyzer world_ex cfg_local
              = (Inr ?A3, [EvReadFile ''work.env'', EvReadFile ''master.env''])"
    by (simp add: newEnvAnalyzer_def newAnalyzer_cfg_local)
  have c4: "newEnvAnalyzer world_ex cfg_other
              = (Inr ?A4, [EvReadFile ''other.env'', EvReadFile ''master.env''])"
    by (simp add: newEnvAnalyzer_def newAnalyzer_cfg_other)
  have r1: "PrintJson ?js ?je world_ex cfg_json_missing
     = (None, [EvReadFile ''a1.json'', EvReadFile ''ab.json'',
               EvPrintf (''(!) found missing keys in a1.json: [b]'' @ [CHR 0x0A])])
     \<and> PrintJson ?js (\<lambda>a. (False, Some ''unused'')) world_ex cfg_json_missing
       = PrintJson ?js ?je world_ex cfg_json_missing"
    using missing_keys_take_priority [of world_ex cfg_json_missing ?A1
            "[EvReadFile ''a1.json'', EvReadFile ''ab.json'']" ?js ?je
            "\<lambda>a. (False, Some ''unused'')"] c1 s1
    by (simp add: paths msgs)
  have r2: "PrintJson ?js ?je world_ex cfg_json_differ
     = (None, [EvReadFile ''a2.json'', EvReadFile ''a1.json'',
               EvPrintf (''(!) a2.json and a1.json are different. Ignore if this is intentional''
                         @ [CHR 0x0A])])"
    using missing_keys_take_priority [of world_ex cfg_json_differ ?A2
            "[EvReadFile ''a2.json'', EvReadFile ''a1.json'']" ?js ?je ?je] c2 s2 q2
    by (simp add: paths msgs)
  have r3: "PrintEnv envAnalyzer_scan world_ex cfg_local
     = (None, [EvReadFile ''work.env'', EvReadFile ''master.env'',
               EvPrintf (''(!) found missing keys in work.env: [BAR]'' @ [CHR 0x0A])])"
    using missing_keys_take_priority [of world_ex cfg_local ?A3
            "[EvReadFile ''work.env'', EvReadFile ''master.env'']" envAnalyzer_scan ?je ?je] c3 s3
    by (simp add: paths msgs)
  have r4: "PrintEnv envAnalyzer_scan world_ex cfg_other
     = (None, [EvReadFile ''other.env'', EvReadFile ''master.env'',
               EvPrintf (''(!) other.env and master.env are different. Ignore if this is intentional''
                         @ [CHR 0x0A]),
               EvPrintf (''[BAR]'' @ [CHR 0x0A])])"
    using missing_keys_take_priority [of world_ex cfg_other ?A4
            "[EvReadFile ''other.env'', EvReadFile ''master.env'']" envAnalyzer_scan ?je ?je] c4 s4
    by (simp add: paths msgs)
  from r1 r2 r3 r4 show ?thesis by simp
qed

text \<open>
  C10. Once the analyzer has been constructed, \<^verbatim>\<open>PrintEnv\<close> returns a nil error
  whatever the scan found, and \<^verbatim>\<open>PrintJson\<close> does so when keys are missing or when
  \<^verbatim>\<open>equality\<close> returned no error, whether or not the files differ. Missing keys and
  differences are reported by printing: the list of missing keys when there is one,
  otherwise the notice that the files differ (followed, for \<^verbatim>\<open>PrintEnv\<close>, by the
  list of different keys), and nothing when there is neither. An error returned by
  \<^verbatim>\<open>PrintEnv\<close> is the constructor's, and an error returned by \<^verbatim>\<open>PrintJson\<close> is
  the constructor's or the one of \<^verbatim>\<open>equality\<close>; with an error nothing is printed.
\<close>

theorem print_error_only_from_failure:
  "(newJsonAnalyzer w c = (Inr a, t)
      \<and> (missing (scan a) \<noteq> [] \<or> snd (equality (scan a)) = None) \<longrightarrow>
        fst (PrintJson scan equality w c) = None)
   \<and> (newEnvAnalyzer w c = (Inr a, t) \<longrightarrow> fst (PrintEnv scan w c) = None)
   \<and> (fst (PrintJson scan equality w c) = Some e \<longrightarrow>
        fst (newJsonAnalyzer w c) = Inl e
        \<or> (\<exists>a'. fst (newJsonAnalyzer w c) = Inr a' \<and> missing (scan a') = []
                  \<and> snd (equality (scan a')) = Some e))
   \<and> (fst (PrintEnv scan w c) = Some e \<longrightarrow> fst (newEnvAnalyzer w c) = Inl e)
   \<and> (newJsonAnalyzer w c = (Inr a, t) \<and> missing (scan a) \<noteq> [] \<longrightarrow>
        snd (PrintJson scan equality w c)
          = t @ [EvPrintf (msg_missing (WorkingPath c) (missing (scan a)))])
   \<and> (newJsonAnalyzer w c = (Inr a, t) \<and> missing (scan a) = []
        \<and> snd (equality (scan a)) = None \<longrightarrow>
        snd (PrintJson scan equality w c)
          = t @ (if fst (equality (scan a)) then []
                 else [EvPrintf (msg_different (WorkingPath c) (MasterPath c))]))
   \<and> (newEnvAnalyzer w c = (Inr a, t) \<longrightarrow>
        snd (PrintEnv scan w c)
          = t @ (if missing (scan a) \<noteq> []
                 then [EvPrintf (msg_missing (WorkingPath c) (missing (scan a)))]
                 else if different (scan a) \<noteq> []
                 then [EvPrintf (msg_different (WorkingPath c) (MasterPath c)),
                       EvPrintf (msg_keys (different (scan a)))]
                 else []))
   \<and> (fst (PrintJson scan equality w c) = Some e \<longrightarrow>
        snd (PrintJson scan equality w c) = snd (newJsonAnalyzer w c))
   \<and> (fst (PrintEnv scan w c) = Some e \<longrightarrow>
        snd (PrintEnv scan w c) = snd (newEnvAnalyzer w c))
   \<and> (fst (newJsonAnalyzer w c) = Inl e \<longrightarrow>
        PrintJson scan equality w c = (Some e, snd (newJsonAnalyzer w c)))
   \<and> (fst (newEnvAnalyzer w c) = Inl e \<longrightarrow>
        PrintEnv scan w c = (Some e, snd (newEnvAnalyzer w c)))
   \<and> (newJsonAnalyzer w c = (Inr a, t) \<and> missing (scan a) = []
        \<and> snd (equality (scan a)) = Some e \<longrightarrow>
        PrintJson scan equality w c = (Some e, t))"
proof -
  have jl: "PrintJson scan equality w c = (Some e, snd (newJsonAnalyzer w c))"
    if "fst (newJsonAnalyzer w c) = Inl e"
    using that by (cases "newJsonAnalyzer w c") (simp add: PrintJson_Inl)
  have el: "PrintEnv scan w c = (Some e, snd (newEnvAnalyzer w c))"
    if "fst (newEnvAnalyzer w c) = Inl e"
    using that by (cases "newEnvAnalyzer w c") (simp add: PrintEnv_Inl)
  have je: "PrintJson scan equality w c = (Some e, t)"
    if "newJsonAnalyzer w c = (Inr a, t)" "missing (scan a) = []"
       "snd (equality (scan a)) = Some e"
    using that by (simp add: PrintJson_Inr)
  have j: "fst (PrintJson scan equality w c) = None"
    if "newJsonAnalyzer w c = (Inr a, t)"
       "missing (scan a) \<noteq> [] \<or> snd (equality (scan a)) = None"
    using that by (auto simp add: PrintJson_Inr)
  have e: "fst (PrintEnv scan w c) = None" if "newEnvAnalyzer w c = (Inr a, t)"
    using that by (simp add: PrintEnv_Inr)
  have jr: "(fst (newJsonAnalyzer w c) = Inl e
        \<or> (\<exists>a'. fst (newJsonAnalyzer w c) = Inr a' \<and> missing (scan a') = []
                  \<and> snd (equality (scan a')) = Some e))
        \<and> snd (PrintJson scan equality w c) = snd (newJsonAnalyzer w c)"
    if p: "fst (PrintJson scan equality w c) = Some e"
  proof (cases "newJsonAnalyzer w c")
    case (Pair r t')
    show ?thesis
    proof (cases r)
      case (Inl err)
      with Pair p show ?thesis by (simp add: PrintJson_Inl)
    next
      case (Inr a')
      with Pair p show ?thesis
        by (auto simp add: PrintJson_Inr split: if_splits option.splits)
    qed
  qed
  have er: "fst (newEnvAnalyzer w c) = Inl e
            \<and> snd (PrintEnv scan w c) = snd (newEnvAnalyzer w c)"
    if p: "fst (PrintEnv scan w c) = Some e"
  proof (cases "newEnvAnalyzer w c")
    case (Pair r t')
    show ?thesis
    proof (cases r)
      case (Inl err)
      with Pair p show ?thesis by (simp add: PrintEnv_Inl)
    next
      case (Inr a')
      with Pair p show ?thesis by (simp add: PrintEnv_Inr split: if_splits)
    qed
  qed
  have jm: "snd (PrintJson scan equality w c)
          = t @ [EvPrintf (msg_missing (WorkingPath c) (missing (scan a)))]"
    if "newJsonAnalyzer w c = (Inr a, t)" "missing (scan a) \<noteq> []"
    using that by (simp add: PrintJson_Inr)
  have jd: "snd (PrintJson scan equality w c)
          = t @ (if fst (equality (scan a)) then []
                 else [EvPrintf (msg_different (WorkingPath c) (MasterPath c))])"
    if "newJsonAnalyzer w c = (Inr a, t)" "missing (scan a) = []"
       "snd (equality (scan a)) = None"
    using that by (simp add: PrintJson_Inr)
  have ep: "snd (PrintEnv scan w c)
          = t @ (if missing (scan a) \<noteq> []
                 then [EvPrintf (msg_missing (WorkingPath c) (missing (scan a)))]
                 else if different (scan a) \<noteq> []
                 then [EvPrintf (msg_different (WorkingPath c) (MasterPath c)),
                       EvPrintf (msg_keys (different (scan a)))]
                 else [])"
    if "newEnvAnalyzer w c = (Inr a, t)"
    using that by (simp add: PrintEnv_Inr)
  from j e jr er jm jd ep jl el je show ?thesis by blast
qed

theorem print_error_only_from_failure_witness:
  "PrintJson (jsonAnalyzer_scan decode_ex) (jsonAnalyzer_equality decode_ex) world_ex cfg_json_missing
     = (None, [EvReadFile ''a1.json'', EvReadFile ''ab.json'',
               EvPrintf (''(!) found missing keys in a1.json: [b]'' @ [CHR 0x0A])])
   \<and> PrintJson (jsonAnalyzer_scan decode_ex) (jsonAnalyzer_equality decode_ex) world_ex cfg_json_differ
     = (None, [EvReadFile ''a2.json'', EvReadFile ''a1.json'',
               EvPrintf (''(!) a2.json and a1.json are different. Ignore if this is intentional''
                         @ [CHR 0x0A])])
   \<and> PrintEnv envAnalyzer_scan world_ex cfg_local
     = (None, [EvReadFile ''work.env'', EvReadFile ''master.env'',
               EvPrintf (''(!) found missing keys in work.env: [BAR]'' @ [CHR 0x0A])])
   \<and> PrintEnv envAnalyzer_scan world_ex cfg_other
     = (None, [EvReadFile ''other.env'', EvReadFile ''master.env'',
               EvPrintf (''(!) other.env and master.env are different. Ignore if this is intentional''
                         @ [CHR 0x0A]),
               EvPrintf (''[BAR]'' @ [CHR 0x0A])])
   \<and> PrintJson (jsonAnalyzer_scan decode_ex) (jsonAnalyzer_equality decode_ex) world_ex cfg_nomaster
     = (Some ''could not open gone.env. open gone.env: no such file or directory'',
        [EvReadFile ''work.env'', EvReadFile ''gone.env''])
   \<and> fst (newJsonAnalyzer world_ex cfg_nomaster)
       = Inl ''could not open gone.env. open gone.env: no such file or directory''
   \<and> PrintEnv envAnalyzer_scan world_ex cfg_nomaster
     = (Some ''could not open gone.env. open gone.env: no such file or directory'',
        [EvReadFile ''work.env'', EvReadFile ''gone.env''])
   \<and> fst (newEnvAnalyzer world_ex cfg_nomaster)
       = Inl ''could not open gone.env. open gone.env: no such file or directory''"
proof -
  let ?A1 = "\<lparr>working = json_a1, master = json_ab, bash = None, missing = [], different = []\<rparr>"
  let ?A2 = "\<lparr>working = json_a2, master = json_a1, bash = None, missing = [], different = []\<rparr>"
  let ?A3 = "\<lparr>working = ''FOO=1'', master = ''FOO=1'' @ [CHR 0x0A] @ ''BAR=2'', bash = None,
              missing = [], different = []\<rparr>"
  let ?A4 = "\<lparr>working = ''FOO=1'' @ [CHR 0x0A] @ ''BAR=3'',
              master = ''FOO=1'' @ [CHR 0x0A] @ ''BAR=2'', bash = None,
              missing = [], different = []\<rparr>"
  let ?js = "jsonAnalyzer_scan decode_ex"
  let ?je = "jsonAnalyzer_equality decode_ex"
  let ?err = "''could not open gone.env. open gone.env: no such file or directory''"
  let ?T1 = "[EvReadFile ''a1.json'', EvReadFile ''ab.json'']"
  let ?T2 = "[EvReadFile ''a2.json'', EvReadFile ''a1.json'']"
  let ?T3 = "[EvReadFile ''work.env'', EvReadFile ''master.env'']"
  let ?T4 = "[EvReadFile ''other.env'', EvReadFile ''master.env'']"
  have paths:
    "WorkingPath cfg_json_missing = ''a1.json''" "MasterPath cfg_json_missing = ''ab.json''"
    "WorkingPath cfg_json_differ = ''a2.json''" "MasterPath cfg_json_differ = ''a1.json''"
    "WorkingPath cfg_local = ''work.env''" "MasterPath cfg_local = ''master.env''"
    "WorkingPath cfg_other = ''other.env''" "MasterPath cfg_other = ''master.env''"
    by (simp_all add: cfg_json_missing_def cfg_json_differ_def cfg_local_def cfg_other_def)
  note msgs = msg_missing_def msg_different_def msg_keys_def fmt_strings_def
  have s1: "missing (?js ?A1) = [''b'']"
    by (simp add: jsonAnalyzer_scan_def decode_ex_simps json_scan_a1_ab)
  have s2: "missing (?js ?A2) = []"
    by (simp add: jsonAnalyzer_scan_def decode_ex_simps json_scan_a2_a1)
  have q2: "?je (?js ?A2) = (False, None)"
    by (simp add: jsonAnalyzer_scan_def jsonAnalyzer_equality_def decode_ex_simps
          json_scan_a2_a1 json_equal_a2_a1)
  have s3: "missing (envAnalyzer_scan ?A3) = [''BAR'']"
    using envAnalyzer_scan_local by simp
  have s4: "missing (envAnalyzer_scan ?A4) = []" "different (envAnalyzer_scan ?A4) = [''BAR'']"
    using envAnalyzer_scan_other by simp_all
  have c1: "newJsonAnalyzer world_ex cfg_json_missing = (Inr ?A1, ?T1)"
    by (simp add: newJsonAnalyzer_def newAnalyzer_cfg_json_missing)
  have c2: "newJsonAnalyzer world_ex cfg_json_differ = (Inr ?A2, ?T2)"
    by (simp add: newJsonAnalyzer_def newAnalyzer_cfg_json_differ)
  have c3: "newEnvAnalyzer world_ex cfg_local = (Inr ?A3, ?T3)"
    by (simp add: newEnvAnalyzer_def newAnalyzer_cfg_local)
  have c4: "newEnvAnalyzer world_ex cfg_other = (Inr ?A4, ?T4)"
    by (simp add: newEnvAnalyzer_def newAnalyzer_cfg_other)
  have n: "newAnalyzer world_ex cfg_nomaster
             = (Inl ?err, [EvReadFile ''work.env'', EvReadFile ''gone.env''])"
    by (simp add: newAnalyzer_local ex_defs)
  have pj: "fst (PrintJson ?js ?je world_ex cfg_nomaster) = Some ?err"
    using n by (simp add: PrintJson_Inl newJsonAnalyzer_def)
  have pe: "fst (PrintEnv envAnalyzer_scan world_ex cfg_nomaster) = Some ?err"
    using n by (simp add: PrintEnv_Inl newEnvAnalyzer_def)
  note t1 = print_error_only_from_failure [of world_ex cfg_json_missing ?A1 ?T1 ?js ?je ?err]
  note t2 = print_error_only_from_failure [of world_ex cfg_json_differ ?A2 ?T2 ?js ?je ?err]
  note t3 = print_error_only_from_failure [of world_ex cfg_local ?A3 ?T3 envAnalyzer_scan ?je ?err]
  note t4 = print_error_only_from_failure [of world_ex cfg_other ?A4 ?T4 envAnalyzer_scan ?je ?err]
  note t5 = print_error_only_from_failure [of world_ex cfg_nomaster ?A1 "[]" ?js ?je ?err]
  note t6 = print_error_only_from_failure [of world_ex cfg_nomaster ?A1 "[]" envAnalyzer_scan ?je ?err]
  have m1: "missing (?js ?A1) \<noteq> []" using s1 by simp
  from t1 c1 m1 have "fst (PrintJson ?js ?je world_ex cfg_json_missing) = None
      \<and> snd (PrintJson ?js ?je world_ex cfg_json_missing)
          = ?T1 @ [EvPrintf (msg_missing (WorkingPath cfg_json_missing) (missing (?js ?A1)))]"
    by blast
  then have r1: "PrintJson ?js ?je world_ex cfg_json_missing
     = (None, [EvReadFile ''a1.json'', EvReadFile ''ab.json'',
               EvPrintf (''(!) found missing keys in a1.json: [b]'' @ [CHR 0x0A])])"
    by (simp add: s1 paths msgs prod_eq_iff)
  have q2': "snd (?je (?js ?A2)) = None" "\<not> fst (?je (?js ?A2))" using q2 by simp_all
  from t2 c2 s2 q2'(1) have "fst (PrintJson ?js ?je world_ex cfg_json_differ) = None
      \<and> snd (PrintJson ?js ?je world_ex cfg_json_differ)
          = ?T2 @ (if fst (?je (?js ?A2)) then []
                   else [EvPrintf (msg_different (WorkingPath cfg_json_differ)
                                     (MasterPath cfg_json_differ))])"
    by blast
  then have r2: "PrintJson ?js ?je world_ex cfg_json_differ
     = (None, [EvReadFile ''a2.json'', EvReadFile ''a1.json'',
               EvPrintf (''(!) a2.json and a1.json are different. Ignore if this is intentional''
                         @ [CHR 0x0A])])"
    using q2'(2) by (simp add: paths msgs prod_eq_iff)
  from t3 c3 have "fst (PrintEnv envAnalyzer_scan world_ex cfg_local) = None
      \<and> snd (PrintEnv envAnalyzer_scan world_ex cfg_local)
          = ?T3 @ (if missing (envAnalyzer_scan ?A3) \<noteq> []
                 then [EvPrintf (msg_missing (WorkingPath cfg_local) (missing (envAnalyzer_scan ?A3)))]
                 else if different (envAnalyzer_scan ?A3) \<noteq> []
                 then [EvPrintf (msg_different (WorkingPath cfg_local) (MasterPath cfg_local)),
                       EvPrintf (msg_keys (different (envAnalyzer_scan ?A3)))]
                 else [])"
    by blast
  then have r3: "PrintEnv envAnalyzer_scan world_ex cfg_local
     = (None, [EvReadFile ''work.env'', EvReadFile ''master.env'',
               EvPrintf (''(!) found missing keys in work.env: [BAR]'' @ [CHR 0x0A])])"
    using s3 by (simp add: paths msgs prod_eq_iff)
  from t4 c4 have "fst (PrintEnv envAnalyzer_scan world_ex cfg_other) = None
      \<and> snd (PrintEnv envAnalyzer_scan world_ex cfg_other)
          = ?T4 @ (if missing (envAnalyzer_scan ?A4) \<noteq> []
                 then [EvPrintf (msg_missing (WorkingPath cfg_other) (missing (envAnalyzer_scan ?A4)))]
                 else if different (envAnalyzer_scan ?A4) \<noteq> []
                 then [EvPrintf (msg_different (WorkingPath cfg_other) (MasterPath cfg_other)),
                       EvPrintf (msg_keys (different (envAnalyzer_scan ?A4)))]
                 else [])"
    by blast
  then have r4: "PrintEnv envAnalyzer_scan world_ex cfg_other
     = (None, [EvReadFile ''other.env'', EvReadFile ''master.env'',
               EvPrintf (''(!) other.env and master.env are different. Ignore if this is intentional''
                         @ [CHR 0x0A]),
               EvPrintf (''[BAR]'' @ [CHR 0x0A])])"
    using s4 by (simp add: paths msgs prod_eq_iff)
  from t5 pj have "snd (PrintJson ?js ?je world_ex cfg_nomaster)
                     = snd (newJsonAnalyzer world_ex cfg_nomaster)"
    by blast
  with pj n have r5: "PrintJson ?js ?je world_ex cfg_nomaster
     = (Some ?err, [EvReadFile ''work.env'', EvReadFile ''gone.env''])"
    by (simp add: newJsonAnalyzer_def prod_eq_iff)
  from t6 pe have "fst (newEnvAnalyzer world_ex cfg_nomaster) = Inl ?err
      \<and> snd (PrintEnv envAnalyzer_scan world_ex cfg_nomaster)
                     = snd (newEnvAnalyzer world_ex cfg_nomaster)"
    by blast
  with pe n have r6: "PrintEnv envAnalyzer_scan world_ex cfg_nomaster
     = (Some ?err, [EvReadFile ''work.env'', EvReadFile ''gone.env''])
     \<and> fst (newEnvAnalyzer world_ex cfg_nomaster) = Inl ?err"
    by (simp add: newEnvAnalyzer_def prod_eq_iff)
  have r7: "fst (newJsonAnalyzer world_ex cfg_nomaster) = Inl ?err"
    using n by (simp add: newJsonAnalyzer_def)
  from r1 r2 r3 r4 r5 r6 r7 show ?thesis by blast
qed

section \<open>Properties of the env operations\<close>

lemma map_of_Some_key: "map_of ms k = Some v \<Longrightarrow> k \<in> fst ` set ms"
  by (metis map_of_eq_None_iff option.distinct(1))

lemma env_diff_member:
  "k \<in> set (env_diff wk ms) \<longleftrightarrow>
     (\<exists>v v'. map_of wk k = Some v \<and> map_of ms k = Some v' \<and> v \<noteq> v')"
proof
  assume "k \<in> set (env_diff wk ms)"
  then show "\<exists>v v'. map_of wk k = Some v \<and> map_of ms k = Some v' \<and> v \<noteq> v'"
    by (simp add: env_diff_def split: option.splits)
next
  assume "\<exists>v v'. map_of wk k = Some v \<and> map_of ms k = Some v' \<and> v \<noteq> v'"
  then obtain v v' where h: "map_of wk k = Some v" "map_of ms k = Some v'" "v \<noteq> v'"
    by blast
  from h(2) have "k \<in> fst ` set ms" by (rule map_of_Some_key)
  with h show "k \<in> set (env_diff wk ms)"
    by (simp add: env_diff_def)
qed

lemma env_scan_member:
  "k \<in> set (env_scan wk ms) \<longleftrightarrow> k \<in> fst ` set ms \<and> map_of wk k = None"
  by (auto simp add: env_scan_def)

lemma env_diff_empty:
  "env_diff wk ms = [] \<longleftrightarrow>
      (\<forall>k v v'. map_of wk k = Some v \<and> map_of ms k = Some v' \<longrightarrow> v = v')"
proof -
  have "env_diff wk ms = [] \<longleftrightarrow> (\<forall>k. k \<notin> set (env_diff wk ms))"
    by (cases "env_diff wk ms") auto
  also have "\<dots> \<longleftrightarrow> (\<forall>k v v'. map_of wk k = Some v \<and> map_of ms k = Some v' \<longrightarrow> v = v')"
    unfolding env_diff_member by blast
  finally show ?thesis .
qed

lemma env_diff_scan_disjoint: "set (env_diff wk ms) \<inter> set (env_scan wk ms) = {}"
proof -
  have "k \<notin> set (env_scan wk ms)" if "k \<in> set (env_diff wk ms)" for k
    using that unfolding env_diff_member env_scan_member by auto
  then show ?thesis by blast
qed


text \<open>
  C7. The env diff is empty if and only if every key that both KeySets hold has the
  same string value in both (plain equality of strings). Every key it returns is held by
  both KeySets, with different values: a key that one of them lacks is never in the
  diff, and the diff and the scan of the same pair have no key in common.
\<close>

theorem env_diff_shared_keys:
  "(env_diff wk ms = [] \<longleftrightarrow>
      (\<forall>k v v'. map_of wk k = Some v \<and> map_of ms k = Some v' \<longrightarrow> v = v'))
   \<and> (\<forall>k \<in> set (env_diff wk ms).
        \<exists>v v'. map_of wk k = Some v \<and> map_of ms k = Some v' \<and> v \<noteq> v')
   \<and> set (env_diff wk ms) \<inter> set (env_scan wk ms) = {}"
  using env_diff_empty [of wk ms] env_diff_scan_disjoint [of wk ms]
  unfolding env_diff_member [symmetric] by simp

theorem env_diff_shared_keys_witness:
  "env_diff [(''FOO'', ''1''), (''BAR'', ''3'')] [(''FOO'', ''1''), (''BAR'', ''2'')] = [''BAR'']
   \<and> (\<exists>v v'. map_of [(''FOO'', ''1''), (''BAR'', ''3'')] ''BAR'' = Some v
          \<and> map_of [(''FOO'', ''1''), (''BAR'', ''2'')] ''BAR'' = Some v' \<and> v \<noteq> v')
   \<and> env_diff [(''FOO'', ''1'')] [(''FOO'', ''1''), (''BAR'', ''2'')] = []
   \<and> env_scan [(''FOO'', ''1'')] [(''FOO'', ''1''), (''BAR'', ''2'')] = [''BAR'']
   \<and> map_of [(''FOO'', ''1'')] ''BAR'' = None
   \<and> ''BAR'' \<notin> set (env_diff [(''FOO'', ''1'')] [(''FOO'', ''1''), (''BAR'', ''2'')])"
proof -
  let ?A = "[(''FOO'', ''1''), (''BAR'', ''3'')]"
  let ?B = "[(''FOO'', ''1''), (''BAR'', ''2'')]"
  let ?C = "[(''FOO'', ''1'')]"
  have d1: "env_diff ?A ?B = [''BAR'']"
    by (simp add: env_diff_def)
  have d2: "env_diff ?C ?B = []"
    by (simp add: env_diff_def)
  have s2: "env_scan ?C ?B = [''BAR'']"
    by (simp add: env_scan_def)
  have m: "map_of ?C ''BAR'' = None"
    by simp
  from env_diff_shared_keys [of ?A ?B]
  have "\<forall>k \<in> set (env_diff ?A ?B).
          \<exists>v v'. map_of ?A k = Some v \<and> map_of ?B k = Some v' \<and> v \<noteq> v'"
    by blast
  then have r1: "\<exists>v v'. map_of ?A ''BAR'' = Some v \<and> map_of ?B ''BAR'' = Some v' \<and> v \<noteq> v'"
    unfolding d1 by simp
  from env_diff_shared_keys [of ?C ?B]
  have "set (env_diff ?C ?B) \<inter> set (env_scan ?C ?B) = {}"
    by blast
  then have r2: "''BAR'' \<notin> set (env_diff ?C ?B)"
    unfolding s2 by simp
  from d1 r1 d2 s2 m r2 show ?thesis by blast
qed

lemma parse_lines_filter:
  "parse_lines (filter (\<lambda>l. \<not> skipped l) ls) ks = parse_lines ls ks"
  by (induction ls arbitrary: ks) simp_all

lemma parse_lines_keys:
  "fst ` set (parse_lines ls ks) \<subseteq> fst ` set ks \<union> line_key ` {l \<in> set ls. \<not> skipped l}"
proof (induction ls arbitrary: ks)
  case Nil
  show ?case by simp
next
  case (Cons l ls)
  show ?case
  proof (cases "skipped l")
    case True
    with Cons [of ks] show ?thesis by auto
  next
    case False
    with Cons [of "AList.update (line_key l) (line_value l) ks"] show ?thesis
      by (auto simp add: dom_update)
  qed
qed

lemma parse_lines_all_skipped:
  "\<forall>l \<in> set ls. skipped l \<Longrightarrow> parse_lines ls ks = ks"
  by (induction ls arbitrary: ks) simp_all

lemma parse_lines_append:
  "parse_lines (xs @ ys) ks = parse_lines ys (parse_lines xs ks)"
  by (induction xs arbitrary: ks) simp_all

lemma split_lines_not_Nil: "split_lines bs \<noteq> []"
  by (induction bs) (simp_all split: list.splits)

lemma split_lines_single: "CHR 0x0A \<notin> set l \<Longrightarrow> split_lines l = [l]"
  by (induction l) auto

lemma split_lines_LF:
  "split_lines (a @ CHR 0x0A # b) = split_lines a @ split_lines b"
proof (induction a)
  case Nil
  show ?case by simp
next
  case (Cons c a)
  obtain l ls where s: "split_lines a = l # ls"
    using split_lines_not_Nil [of a] by (cases "split_lines a") auto
  with Cons show ?case by simp
qed

lemma parseEnv_drop_line:
  assumes "CHR 0x0A \<notin> set l" and "skipped l"
  shows "parseEnv (a @ [CHR 0x0A] @ l @ [CHR 0x0A] @ b) = parseEnv (a @ [CHR 0x0A] @ b)"
proof -
  have "split_lines (a @ [CHR 0x0A] @ l @ [CHR 0x0A] @ b)
          = split_lines a @ [l] @ split_lines b"
    using split_lines_LF [of a "l @ CHR 0x0A # b"] split_lines_LF [of l b]
          split_lines_single [OF assms(1)]
    by simp
  moreover have "split_lines (a @ [CHR 0x0A] @ b) = split_lines a @ split_lines b"
    using split_lines_LF [of a b] by simp
  ultimately show ?thesis
    using assms(2) by (simp add: parseEnv_def parse_lines_append)
qed


text \<open>
  C9. \<^verbatim>\<open>parseEnv\<close> has no error result: it returns a KeySet for every byte stream. A
  line without \<^verbatim>\<open>=\<close>, a blank line and a line that starts with \<^verbatim>\<open>#\<close> are
  skipped: the result is the one of the remaining lines alone, every key of the result
  is the key of a line that is not skipped, an input of skipped lines only gives the
  empty KeySet, and putting such a line into a byte stream leaves the result (and so
  every scan and diff made from it) as it was.
\<close>

theorem parseEnv_skips_malformed:
  "parseEnv bs = parse_lines (filter (\<lambda>l. \<not> skipped l) (split_lines bs)) []
   \<and> fst ` set (parseEnv bs) \<subseteq> line_key ` {l \<in> set (split_lines bs). \<not> skipped l}
   \<and> ((\<forall>l \<in> set (split_lines bs). skipped l) \<longrightarrow> parseEnv bs = [])
   \<and> (CHR 0x0A \<notin> set l \<and> skipped l \<longrightarrow>
        parseEnv (a @ [CHR 0x0A] @ l @ [CHR 0x0A] @ b) = parseEnv (a @ [CHR 0x0A] @ b))
   \<and> set (env_scan wk (parseEnv bs)) \<subseteq> line_key ` {l \<in> set (split_lines bs). \<not> skipped l}
   \<and> set (env_diff wk (parseEnv bs)) \<subseteq> line_key ` {l \<in> set (split_lines bs). \<not> skipped l}"
proof (intro conjI impI)
  have keys: "fst ` set (parseEnv bs) \<subseteq> line_key ` {l \<in> set (split_lines bs). \<not> skipped l}"
    using parse_lines_keys [of "split_lines bs" "[]"] by (simp add: parseEnv_def)
  have "set (env_scan wk (parseEnv bs)) \<subseteq> fst ` set (parseEnv bs)"
    by (auto simp add: env_scan_def)
  with keys show "set (env_scan wk (parseEnv bs))
                   \<subseteq> line_key ` {l \<in> set (split_lines bs). \<not> skipped l}"
    by blast
  have "set (env_diff wk (parseEnv bs)) \<subseteq> fst ` set (parseEnv bs)"
    by (auto simp add: env_diff_def)
  with keys show "set (env_diff wk (parseEnv bs))
                   \<subseteq> line_key ` {l \<in> set (split_lines bs). \<not> skipped l}"
    by blast
  show "parseEnv bs = parse_lines (filter (\<lambda>l. \<not> skipped l) (split_lines bs)) []"
    by (simp add: parseEnv_def parse_lines_filter)
  show "fst ` set (parseEnv bs) \<subseteq> line_key ` {l \<in> set (split_lines bs). \<not> skipped l}"
    using parse_lines_keys [of "split_lines bs" "[]"] by (simp add: parseEnv_def)
  show "parseEnv bs = []" if "\<forall>l \<in> set (split_lines bs). skipped l"
    using that by (simp add: parseEnv_def parse_lines_all_skipped)
  show "parseEnv (a @ [CHR 0x0A] @ l @ [CHR 0x0A] @ b) = parseEnv (a @ [CHR 0x0A] @ b)"
    if "CHR 0x0A \<notin> set l \<and> skipped l"
    using that parseEnv_drop_line [of l a b] by blast
qed


theorem parseEnv_skips_malformed_witness:
  "CHR 0x0A \<notin> set ''# BAR=2'' \<and> skipped ''# BAR=2'' \<and> skipped ''junk'' \<and> skipped []
   \<and> parseEnv (''FOO=1'' @ [CHR 0x0A] @ ''# BAR=2'' @ [CHR 0x0A] @ ''BAZ = 3 '')
       = parseEnv (''FOO=1'' @ [CHR 0x0A] @ ''BAZ = 3 '')
   \<and> parseEnv (''FOO=1'' @ [CHR 0x0A] @ ''BAZ = 3 '') = [(''FOO'', ''1''), (''BAZ'', ''3'')]
   \<and> split_lines (''# BAR=2'' @ [CHR 0x0A] @ ''junk'' @ [CHR 0x0A]) = [''# BAR=2'', ''junk'', []]
   \<and> parseEnv (''# BAR=2'' @ [CHR 0x0A] @ ''junk'' @ [CHR 0x0A]) = []"
proof -
  have sk: "skipped ''# BAR=2''" "skipped ''junk''" "skipped []"
    by code_simp+
  have nl: "CHR 0x0A \<notin> set ''# BAR=2''"
    by simp
  have sp: "split_lines (''# BAR=2'' @ [CHR 0x0A] @ ''junk'' @ [CHR 0x0A])
              = [''# BAR=2'', ''junk'', []]"
    by code_simp
  have ev: "parseEnv (''FOO=1'' @ [CHR 0x0A] @ ''BAZ = 3 '') = [(''FOO'', ''1''), (''BAZ'', ''3'')]"
    by code_simp
  have all: "\<forall>l \<in> set (split_lines (''# BAR=2'' @ [CHR 0x0A] @ ''junk'' @ [CHR 0x0A])). skipped l"
    unfolding sp using sk by simp
  have r1: "parseEnv (''FOO=1'' @ [CHR 0x0A] @ ''# BAR=2'' @ [CHR 0x0A] @ ''BAZ = 3 '')
       = parseEnv (''FOO=1'' @ [CHR 0x0A] @ ''BAZ = 3 '')"
    using parseEnv_skips_malformed [of "''FOO=1''" "''# BAR=2''" "''FOO=1''" "''BAZ = 3 ''" "[]"]
          nl sk(1)
    by blast
  have r2: "parseEnv (''# BAR=2'' @ [CHR 0x0A] @ ''junk'' @ [CHR 0x0A]) = []"
    using parseEnv_skips_malformed
            [of "''# BAR=2'' @ [CHR 0x0A] @ ''junk'' @ [CHR 0x0A]" "[]" "[]" "[]" "[]"] all
    by blast
  from sk nl sp ev r1 r2 show ?thesis by blast
qed

section \<open>Properties of the JSON operations\<close>

text \<open>
  Every path the scan records is a topmost missing path of the working tree, and every
  path of the master tree that the working tree lacks has one of its prefixes recorded.
\<close>

lemma topmost_missing_child_None: "child wk s = None \<Longrightarrow> topmost_missing wk [s]"
  by (simp add: topmost_missing_def)

lemma topmost_missing_child_Some:
  "child wk s = Some wv \<Longrightarrow> topmost_missing wv q \<Longrightarrow> topmost_missing wk (s # q)"
  by (simp add: topmost_missing_def)

lemma scan_sound:
  "r \<in> set (scan_node p wk ms) \<Longrightarrow> \<exists>q. r = p @ q \<and> topmost_missing wk q"
  "r \<in> set (scan_fields p wk kvs) \<Longrightarrow> \<exists>q. r = p @ q \<and> topmost_missing wk q"
  "r \<in> set (scan_elems p wk i xs) \<Longrightarrow> \<exists>q. r = p @ q \<and> topmost_missing wk q"
proof (induction p wk ms and p wk kvs and p wk i xs arbitrary: r and r and r
       rule: scan_node_scan_fields_scan_elems.induct)
  case (8 p wk k mv kvs)
  show ?case
  proof (cases "r \<in> set (scan_fields p wk kvs)")
    case True
    then show ?thesis by (rule "8.IH"(2))
  next
    case False
    show ?thesis
    proof (cases "child wk (Key k)")
      case None
      with False "8.prems" have "r = p @ [Key k]" by simp
      with None show ?thesis using topmost_missing_child_None by blast
    next
      case (Some wv)
      with False "8.prems" have "r \<in> set (scan_node (p @ [Key k]) wv mv)" by simp
      from "8.IH"(1) [OF Some this] obtain q
        where "r = (p @ [Key k]) @ q" "topmost_missing wv q" by blast
      with Some have "r = p @ (Key k # q) \<and> topmost_missing wk (Key k # q)"
        by (simp add: topmost_missing_child_Some)
      then show ?thesis by blast
    qed
  qed
next
  case (10 p wk i mv xs)
  show ?case
  proof (cases "r \<in> set (scan_elems p wk (Suc i) xs)")
    case True
    then show ?thesis by (rule "10.IH"(2))
  next
    case False
    show ?thesis
    proof (cases "child wk (Index i)")
      case None
      with False "10.prems" have "r = p @ [Index i]" by simp
      with None show ?thesis using topmost_missing_child_None by blast
    next
      case (Some wv)
      with False "10.prems" have "r \<in> set (scan_node (p @ [Index i]) wv mv)" by simp
      from "10.IH"(1) [OF Some this] obtain q
        where "r = (p @ [Index i]) @ q" "topmost_missing wv q" by blast
      with Some have "r = p @ (Index i # q) \<and> topmost_missing wk (Index i # q)"
        by (simp add: topmost_missing_child_Some)
      then show ?thesis by blast
    qed
  qed
qed simp_all

lemma resolve_Cons_child:
  "resolve t (s # q) \<noteq> None \<Longrightarrow> \<exists>v. child t s = Some v \<and> resolve v q \<noteq> None"
  by (cases "child t s") simp_all

lemma scan_complete:
  "resolve ms q \<noteq> None \<Longrightarrow> resolve wk q = None \<Longrightarrow>
     \<exists>q'. prefix q' q \<and> p @ q' \<in> set (scan_node p wk ms)"
  "map_of kvs k = Some mv \<Longrightarrow> resolve mv q \<noteq> None \<Longrightarrow> resolve wk (Key k # q) = None \<Longrightarrow>
     \<exists>q'. prefix q' (Key k # q) \<and> p @ q' \<in> set (scan_fields p wk kvs)"
  "j < length xs \<Longrightarrow> resolve (xs ! j) q \<noteq> None \<Longrightarrow> resolve wk (Index (i + j) # q) = None \<Longrightarrow>
     \<exists>q'. prefix q' (Index (i + j) # q) \<and> p @ q' \<in> set (scan_elems p wk i xs)"
proof (induction p wk ms and p wk kvs and p wk i xs arbitrary: q and k mv q and j q
       rule: scan_node_scan_fields_scan_elems.induct)
  case (1 p wk kvs)
  from "1.prems" obtain s q0 where q: "q = s # q0" by (cases q) auto
  with "1.prems"(1) obtain v where v: "child (JObject kvs) s = Some v" "resolve v q0 \<noteq> None"
    using resolve_Cons_child by blast
  then obtain k where k: "s = Key k" "map_of kvs k = Some v" by (cases s) auto
  from "1.IH" [OF k(2) v(2)] "1.prems"(2) q k(1) show ?case by simp
next
  case (2 p wk xs)
  from "2.prems" obtain s q0 where q: "q = s # q0" by (cases q) auto
  with "2.prems"(1) obtain v where v: "child (JArray xs) s = Some v" "resolve v q0 \<noteq> None"
    using resolve_Cons_child by blast
  then obtain j where j: "s = Index j" "j < length xs" "v = xs ! j"
    by (cases s) (auto split: if_splits)
  from "2.IH" [of j q0] j v(2) "2.prems"(2) q show ?case by simp
next
  case (3 p wk)
  then show ?case by (cases q) auto
next
  case (4 p wk b)
  then show ?case by (cases q) auto
next
  case (5 p wk n)
  then show ?case by (cases q) auto
next
  case (6 p wk s)
  then show ?case by (cases q) auto
next
  case (7 p wk)
  then show ?case by simp
next
  case (8 p wk k0 mv0 kvs)
  show ?case
  proof (cases "k = k0")
    case False
    with "8.prems" have "map_of kvs k = Some mv" by simp
    from "8.IH"(2) [OF this "8.prems"(2,3)] show ?thesis by auto
  next
    case True
    with "8.prems" have mv: "mv = mv0" by simp
    show ?thesis
    proof (cases "child wk (Key k0)")
      case None
      then have "prefix [Key k] (Key k # q) \<and> p @ [Key k] \<in> set (scan_fields p wk ((k0, mv0) # kvs))"
        using True by simp
      then show ?thesis by blast
    next
      case (Some wv)
      with "8.prems"(3) True have "resolve wv q = None" by simp
      from "8.IH"(1) [OF Some _ this] "8.prems"(2) mv obtain q1
        where "prefix q1 q" "(p @ [Key k0]) @ q1 \<in> set (scan_node (p @ [Key k0]) wv mv0)"
        by blast
      with Some True
      have "prefix (Key k # q1) (Key k # q)
            \<and> p @ (Key k # q1) \<in> set (scan_fields p wk ((k0, mv0) # kvs))"
        by simp
      then show ?thesis by blast
    qed
  qed
next
  case (9 p wk i)
  then show ?case by simp
next
  case (10 p wk i mv0 xs)
  show ?case
  proof (cases j)
    case (Suc j')
    with "10.prems" have "j' < length xs" "resolve (xs ! j') q \<noteq> None"
      "resolve wk (Index (Suc i + j') # q) = None"
      by simp_all
    from "10.IH"(2) [OF this] Suc show ?thesis by auto
  next
    case 0
    with "10.prems" have mv: "resolve mv0 q \<noteq> None" and w: "resolve wk (Index i # q) = None"
      by simp_all
    show ?thesis
    proof (cases "child wk (Index i)")
      case None
      then have "prefix [Index (i + j)] (Index (i + j) # q)
                 \<and> p @ [Index (i + j)] \<in> set (scan_elems p wk i (mv0 # xs))"
        using 0 by simp
      then show ?thesis by blast
    next
      case (Some wv)
      with w have "resolve wv q = None" by simp
      from "10.IH"(1) [OF Some mv this] obtain q1
        where "prefix q1 q" "(p @ [Index i]) @ q1 \<in> set (scan_node (p @ [Index i]) wv mv0)"
        by blast
      with Some 0
      have "prefix (Index (i + j) # q1) (Index (i + j) # q)
            \<and> p @ (Index (i + j) # q1) \<in> set (scan_elems p wk i (mv0 # xs))"
        by simp
      then show ?thesis by blast
    qed
  qed
qed

lemma resolve_append_None: "resolve t a = None \<Longrightarrow> resolve t (a @ b) = None"
  by (induction a arbitrary: t) (simp_all split: option.splits)

lemma scan_paths_topmost:
  "r \<in> set (json_scan_paths wk ms) \<Longrightarrow> topmost_missing wk r"
  using scan_sound(1) [of r "[]" wk ms] by (simp add: json_scan_paths_def)

lemma scan_paths_no_descendant:
  assumes "r \<in> set (json_scan_paths wk ms)" and "r' \<in> set (json_scan_paths wk ms)"
  shows "\<not> strict_prefix r r'"
proof
  assume "strict_prefix r r'"
  then obtain z where z: "r' = r @ z" "z \<noteq> []"
    by (auto simp add: strict_prefix_def prefix_def)
  from assms(1) have "resolve wk r = None"
    using scan_paths_topmost by (simp add: topmost_missing_def)
  then have "resolve wk (r @ butlast z) = None"
    by (rule resolve_append_None)
  moreover from z have "butlast r' = r @ butlast z"
    by (simp add: butlast_append)
  moreover from assms(2) have "resolve wk (butlast r') \<noteq> None"
    using scan_paths_topmost by (simp add: topmost_missing_def)
  ultimately show False by simp
qed

lemma scan_paths_reports_ancestor:
  assumes "resolve ms q \<noteq> None" and "resolve wk q = None"
  shows "\<exists>r. prefix r q \<and> r \<in> set (json_scan_paths wk ms)
             \<and> (\<forall>r' \<in> set (json_scan_paths wk ms). prefix r' q \<longrightarrow> r' = r)"
proof -
  from scan_complete(1) [OF assms, of "[]"] obtain r
    where r: "prefix r q" "r \<in> set (json_scan_paths wk ms)"
    by (auto simp add: json_scan_paths_def)
  have "r' = r" if r': "r' \<in> set (json_scan_paths wk ms)" "prefix r' q" for r'
  proof -
    from r(1) r'(2) have "prefix r r' \<or> prefix r' r"
      by (rule prefix_same_cases)
    moreover have "\<not> strict_prefix r r'" "\<not> strict_prefix r' r"
      using scan_paths_no_descendant r(2) r'(1) by blast+
    ultimately show ?thesis by (auto simp add: strict_prefix_def)
  qed
  with r show ?thesis by blast
qed


text \<open>
  C6. For a path that resolves in the master tree and not in the working tree, the JSON
  scan reports exactly one of its prefixes: the topmost missing one, which does not
  resolve in the working tree while its parent does. No reported path lies below
  another reported path, so no descendant of a missing subtree is reported on its own.
  For the master \<^verbatim>\<open>{"a":1,"b":{"c":2}}\<close> and the working \<^verbatim>\<open>{"a":1}\<close> the scan
  returns \<^verbatim>\<open>["b"]\<close>.
\<close>

theorem json_scan_topmost_only:
  "(resolve ms q \<noteq> None \<and> resolve wk q = None \<longrightarrow>
      (\<exists>r. prefix r q \<and> r \<in> set (json_scan_paths wk ms)
           \<and> (\<forall>r' \<in> set (json_scan_paths wk ms). prefix r' q \<longrightarrow> r' = r)))
   \<and> (\<forall>r \<in> set (json_scan_paths wk ms).
        r \<noteq> [] \<and> resolve wk r = None \<and> resolve wk (butlast r) \<noteq> None
        \<and> (\<forall>r' \<in> set (json_scan_paths wk ms). \<not> strict_prefix r r'))
   \<and> json_scan tree_a1 tree_ab = [''b'']"
proof (intro conjI impI ballI)
  show "\<exists>r. prefix r q \<and> r \<in> set (json_scan_paths wk ms)
            \<and> (\<forall>r' \<in> set (json_scan_paths wk ms). prefix r' q \<longrightarrow> r' = r)"
    if "resolve ms q \<noteq> None \<and> resolve wk q = None"
    using that scan_paths_reports_ancestor [of ms q wk] by blast
next
  fix r assume r: "r \<in> set (json_scan_paths wk ms)"
  from scan_paths_topmost [OF r]
  show "r \<noteq> []" "resolve wk r = None" "resolve wk (butlast r) \<noteq> None"
    by (simp_all add: topmost_missing_def)
  fix r' assume "r' \<in> set (json_scan_paths wk ms)"
  with r show "\<not> strict_prefix r r'" by (rule scan_paths_no_descendant)
next
  show "json_scan tree_a1 tree_ab = [''b'']" by (rule json_scan_a1_ab)
qed

theorem json_scan_topmost_only_witness:
  "resolve tree_ab [Key ''b'', Key ''c''] = Some (JNumber 2)
   \<and> resolve tree_a1 [Key ''b'', Key ''c''] = None
   \<and> json_scan_paths tree_a1 tree_ab = [[Key ''b'']]
   \<and> prefix [Key ''b''] [Key ''b'', Key ''c'']
   \<and> resolve tree_a1 [Key ''b''] = None
   \<and> json_scan tree_a1 tree_ab = [''b'']
   \<and> render [Key ''b'', Key ''c''] = ''b.c''
   \<and> ''b.c'' \<notin> set (json_scan tree_a1 tree_ab)"
proof -
  have m: "resolve tree_ab [Key ''b'', Key ''c''] = Some (JNumber 2)"
    by (simp add: tree_ab_def)
  have w: "resolve tree_a1 [Key ''b'', Key ''c''] = None"
    by (simp add: tree_a1_def)
  have p: "json_scan_paths tree_a1 tree_ab = [[Key ''b'']]"
    by (simp add: json_scan_paths_def tree_a1_def tree_ab_def)
  note t = json_scan_topmost_only [of tree_ab "[Key ''b'', Key ''c'']" tree_a1]
  from t m w obtain r where r: "prefix r [Key ''b'', Key ''c'']" "r \<in> set (json_scan_paths tree_a1 tree_ab)"
    by auto
  from r(2) have "r = [Key ''b'']" unfolding p by simp
  with r(1) have r1: "prefix [Key ''b''] [Key ''b'', Key ''c'']" by simp
  from t have "\<forall>r \<in> set (json_scan_paths tree_a1 tree_ab). resolve tree_a1 r = None"
    by blast
  then have r2: "resolve tree_a1 [Key ''b''] = None" unfolding p by simp
  from t have r3: "json_scan tree_a1 tree_ab = [''b'']" by blast
  have r4: "render [Key ''b'', Key ''c''] = ''b.c''" by simp
  from r3 have r5: "''b.c'' \<notin> set (json_scan tree_a1 tree_ab)" by simp
  from m w p r1 r2 r3 r4 r5 show ?thesis by blast
qed

lemma json_equal_fields_same:
  assumes "\<And>k a. (k, a) \<in> set xs \<Longrightarrow> json_equal a a"
  shows "list_all (\<lambda>k. case map_of xs k of
                      None \<Rightarrow> False
                    | Some a \<Rightarrow> (case map_of xs k of None \<Rightarrow> False | Some b \<Rightarrow> json_equal a b))
               (map fst xs)"
proof -
  have "case map_of xs k of
          None \<Rightarrow> False
        | Some a \<Rightarrow> (case map_of xs k of None \<Rightarrow> False | Some b \<Rightarrow> json_equal a b)"
    if "k \<in> fst ` set xs" for k
  proof -
    from that obtain a where a: "map_of xs k = Some a"
      by (metis map_of_eq_None_iff not_Some_eq)
    then have "(k, a) \<in> set xs" by (rule map_of_SomeD)
    with assms a show ?thesis by simp
  qed
  then show ?thesis by (simp add: list_all_iff)
qed

lemma json_equal_refl: "json_equal t t"
proof (induction t)
  case (JArray xs)
  then have "list_all2 json_equal xs xs"
    by (simp add: list_all2_same)
  then show ?case by simp
next
  case (JObject xs)
  have "json_equal a a" if "(k, a) \<in> set xs" for k a
    using JObject [of "(k, a)" a] that by simp
  then show ?case
    using json_equal_fields_same [of xs] by simp
qed simp_all

lemma json_equal_reorder:
  assumes "distinct (map fst xs)" and "distinct (map fst ys)" and "set xs = set ys"
  shows "json_equal (JObject xs) (JObject ys)"
proof -
  from assms have m: "map_of ys = map_of xs"
    using map_of_inject_set [of xs ys] by simp
  from assms(3) have k: "set (map fst xs) = set (map fst ys)"
    by simp
  have "json_equal (JObject xs) (JObject ys) = json_equal (JObject xs) (JObject xs)"
    unfolding json_equal.simps m k by simp
  then show ?thesis
    by (simp only: json_equal_refl)
qed


text \<open>
  C8. The JSON equality is reflexive: every tree equals itself. It is the deep
  structural one: two mappings with the same members in any order are equal, and two
  sequences are equal exactly when they have the same length and equal elements at
  every position.
\<close>

theorem json_equal_reflexive:
  "json_equal T T
   \<and> (distinct (map fst xs) \<and> distinct (map fst ys) \<and> set xs = set ys \<longrightarrow>
        json_equal (JObject xs) (JObject ys))
   \<and> (json_equal (JArray us) (JArray vs) \<longleftrightarrow>
        length us = length vs \<and> (\<forall>i < length us. json_equal (us ! i) (vs ! i)))"
proof (intro conjI impI)
  show "json_equal T T" by (rule json_equal_refl)
  show "json_equal (JObject xs) (JObject ys)"
    if "distinct (map fst xs) \<and> distinct (map fst ys) \<and> set xs = set ys"
    using that json_equal_reorder [of xs ys] by blast
  show "json_equal (JArray us) (JArray vs) \<longleftrightarrow>
        length us = length vs \<and> (\<forall>i < length us. json_equal (us ! i) (vs ! i))"
    by (auto simp add: list_all2_conv_all_nth)
qed

theorem json_equal_reflexive_witness:
  "json_equal tree_ab tree_ab
   \<and> json_equal (JObject [(''a'', JNumber 1), (''b'', JArray [JNull, JBool True])])
                 (JObject [(''b'', JArray [JNull, JBool True]), (''a'', JNumber 1)])
   \<and> \<not> json_equal (JArray [JNumber 1, JNumber 2]) (JArray [JNumber 2, JNumber 1])
   \<and> \<not> json_equal (JNumber 1) (JString ''1'')"
proof -
  let ?xs = "[(''a'', JNumber 1), (''b'', JArray [JNull, JBool True])]"
  let ?ys = "[(''b'', JArray [JNull, JBool True]), (''a'', JNumber 1)]"
  have h: "distinct (map fst ?xs) \<and> distinct (map fst ?ys) \<and> set ?xs = set ?ys"
    by auto
  note t = json_equal_reflexive [of tree_ab ?xs ?ys "[JNumber 1, JNumber 2]" "[JNumber 2, JNumber 1]"]
  from t have r1: "json_equal tree_ab tree_ab" by blast
  from t h have r2: "json_equal (JObject ?xs) (JObject ?ys)" by blast
  have "\<not> json_equal ([JNumber 1, JNumber 2] ! 0) ([JNumber 2, JNumber 1] ! 0)"
    by simp
  with t have r3: "\<not> json_equal (JArray [JNumber 1, JNumber 2]) (JArray [JNumber 2, JNumber 1])"
    by (metis length_greater_0_conv list.discI)
  have r4: "\<not> json_equal (JNumber 1) (JString ''1'')" by simp
  from r1 r2 r3 r4 show ?thesis by blast
qed

end
